theory Spec2Isabelle
  imports Main "HOL-Library.Word" "HOL-Library.Signed_Division"
begin

section \<open>The logging package: data model\<close>

text \<open>
  Go's \<open>int\<close> is a machine integer; it is modelled at its 64-bit width (the width
  on amd64 and arm64): \<open>+\<close> and \<open>*\<close> wrap around, comparisons are the signed ones
  (\<open><s\<close>, \<open>\<le>s\<close>), and \<open>/\<close> truncates towards zero.
\<close>

type_synonym go_int = "64 word"

definition quo :: "go_int \<Rightarrow> go_int \<Rightarrow> go_int" where
  \<comment> \<open>Go's \<open>a / b\<close> on \<open>int\<close>, for \<open>b \<noteq> 0\<close>: the quotient truncated towards zero.\<close>
  "quo a b = word_of_int (sint a sdiv sint b)"

text \<open>The verbosity levels: \<open>const ( LOG = iota; INFO; WARN; ERROR; CRITICAL )\<close>.\<close>

abbreviation (input) LOG :: go_int where "LOG \<equiv> 0"
abbreviation (input) INFO :: go_int where "INFO \<equiv> 1"
abbreviation (input) WARN :: go_int where "WARN \<equiv> 2"
abbreviation (input) ERROR :: go_int where "ERROR \<equiv> 3"
abbreviation (input) CRITICAL :: go_int where "CRITICAL \<equiv> 4"

definition TS_FMT_TIME_MILLI :: string where
  "TS_FMT_TIME_MILLI = ''15:04:05.000''"

text \<open>
  An \<open>io.Writer\<close> value is \<open>None\<close> when it is \<open>nil\<close>, and otherwise one of the two
  standard streams or a writer supplied by the caller. \<open>outputMap\<close> is
  \<open>map[int]io.Writer\<close>: reading a key yields \<open>nil\<close> both when the key is missing and
  when \<open>nil\<close> was stored under it, and the package never tells the two apart.
\<close>

datatype writer = Stdout | Stderr | Custom nat

type_synonym outputMap = "go_int \<Rightarrow> writer option"

record Logger =
  verbosity :: go_int
  "output" :: outputMap
  overrideStack :: "bool list"
  prefixTS :: bool
  prefixLevel :: bool
  prefixCaller :: bool
  fmtTimestamp :: string

text \<open>
  What the package takes from outside itself is a parameter of the model: the formatter
  \<open>fmt.Sprintf\<close>, the clock (\<open>time.Now().Format(layout)\<close>), the call stack seen by
  \<open>runtime.Callers\<close> (function name and line of each frame, innermost first) and the
  error, if any, that a write to a sink returns. Clock and write errors may change from
  one output operation to the next, so both are indexed by the number of writes
  attempted so far.
\<close>

datatype arg = StrArg string | IntArg go_int | ErrArg string

record env =
  Sprintf :: "string \<Rightarrow> arg list \<Rightarrow> string"
  NowFormat :: "nat \<Rightarrow> string \<Rightarrow> string"
  Callers :: "(string \<times> go_int) list"
  WriteErr :: "nat \<Rightarrow> writer \<Rightarrow> string \<Rightarrow> string option"

text \<open>
  The sinks are observed through the trace of writes attempted on them, oldest first:
  the sink, the text, and the error returned (\<open>None\<close> for \<open>nil\<close>).
\<close>

type_synonym trace = "(writer \<times> string \<times> string option) list"

text \<open>
  A call either returns or panics; both leave a logger state and a trace behind. The
  payload of a panic is the string given to \<open>panic\<close>, or the runtime error of calling
  \<open>Write\<close> on a \<open>nil\<close> writer.
\<close>

datatype payload = Msg string | NilWriter

datatype outcome = Returned Logger trace | Panicked payload Logger trace

fun logger_of :: "outcome \<Rightarrow> Logger" where
  "logger_of (Returned l tr) = l"
| "logger_of (Panicked p l tr) = l"

fun trace_of :: "outcome \<Rightarrow> trace" where
  "trace_of (Returned l tr) = tr"
| "trace_of (Panicked p l tr) = tr"

section \<open>Configuration\<close>

definition NewLogger :: Logger where
  "NewLogger =
     \<lparr> verbosity = INFO,
       output = (\<lambda>k. None)(LOG := Some Stdout, INFO := Some Stdout, WARN := Some Stderr,
                            ERROR := Some Stderr, CRITICAL := Some Stderr),
       overrideStack = [],
       prefixTS = False,
       prefixLevel = False,
       prefixCaller = False,
       fmtTimestamp = TS_FMT_TIME_MILLI \<rparr>"

definition GetVerbosity :: "Logger \<Rightarrow> go_int" where
  "GetVerbosity l = verbosity l"

definition SetVerbosity :: "go_int \<Rightarrow> Logger \<Rightarrow> Logger" where
  "SetVerbosity level l =
     (let level = (if level <s LOG then LOG else level);
          level = (if CRITICAL <s level then CRITICAL else level)
      in l\<lparr>verbosity := level\<rparr>)"

text \<open>\<open>IncreaseVerbosity\<close> and \<open>DecreaseVerbosity\<close> give the returned value and the new state.\<close>

definition IncreaseVerbosity :: "Logger \<Rightarrow> go_int \<times> Logger" where
  "IncreaseVerbosity l =
     (let l' = (if verbosity l <s CRITICAL then l\<lparr>verbosity := verbosity l + 1\<rparr> else l)
      in (verbosity l', l'))"

definition DecreaseVerbosity :: "Logger \<Rightarrow> go_int \<times> Logger" where
  "DecreaseVerbosity l =
     (let l' = (if LOG <s verbosity l then l\<lparr>verbosity := verbosity l - 1\<rparr> else l)
      in (verbosity l', l'))"

definition GetPrefixTimestamp :: "Logger \<Rightarrow> bool" where
  "GetPrefixTimestamp l = prefixTS l"

definition SetPrefixTimestamp :: "bool \<Rightarrow> Logger \<Rightarrow> Logger" where
  "SetPrefixTimestamp set' l = l\<lparr>prefixTS := set'\<rparr>"

definition GetTimestampFormat :: "Logger \<Rightarrow> string" where
  "GetTimestampFormat l = fmtTimestamp l"

definition SetTimestampFormat :: "string \<Rightarrow> Logger \<Rightarrow> Logger" where
  "SetTimestampFormat format l = l\<lparr>fmtTimestamp := format\<rparr>"

definition GetPrefixCaller :: "Logger \<Rightarrow> bool" where
  "GetPrefixCaller l = prefixCaller l"

definition SetPrefixCaller :: "bool \<Rightarrow> Logger \<Rightarrow> Logger" where
  "SetPrefixCaller set' l = l\<lparr>prefixCaller := set'\<rparr>"

definition GetPrefixLevel :: "Logger \<Rightarrow> bool" where
  "GetPrefixLevel l = prefixLevel l"

definition SetPrefixLevel :: "bool \<Rightarrow> Logger \<Rightarrow> Logger" where
  "SetPrefixLevel set' l = l\<lparr>prefixLevel := set'\<rparr>"

definition GetOutput :: "Logger \<Rightarrow> go_int \<Rightarrow> writer option" where
  "GetOutput l level = (if level <s LOG \<or> CRITICAL <s level then None else output l level)"

text \<open>
  In \<open>SetOutput\<close> the \<open>switch\<close> has the cases \<open>WARN\<close> and \<open>ERROR\<close> with empty bodies
  before \<open>case CRITICAL: writer = os.Stderr\<close>. A Go \<open>case\<close> does not fall through to
  the next one, so for \<open>WARN\<close> and \<open>ERROR\<close> the writer stays \<open>nil\<close>.
\<close>

definition SetOutput :: "go_int \<Rightarrow> writer option \<Rightarrow> Logger \<Rightarrow> Logger" where
  "SetOutput level writer l =
     (if level <s LOG \<or> CRITICAL <s level then l
      else
        let writer = (if writer = None then
                        (if level = WARN then writer
                         else if level = ERROR then writer
                         else if level = CRITICAL then Some Stderr
                         else Some Stdout)
                      else writer)
        in l\<lparr>output := (output l)(level := writer)\<rparr>)"

section \<open>The override stack\<close>

definition pushOverride :: "bool \<Rightarrow> bool \<Rightarrow> bool \<Rightarrow> Logger \<Rightarrow> Logger" where
  "pushOverride ts caller level l =
     l\<lparr>overrideStack := overrideStack l @ [prefixTS l, prefixCaller l, prefixLevel l],
       prefixTS := ts,
       prefixCaller := caller,
       prefixLevel := level\<rparr>"

definition popOverride :: "Logger \<Rightarrow> Logger" where
  "popOverride l =
     (if 2 < length (overrideStack l) then
        let idx = length (overrideStack l) - 3
        in l\<lparr>prefixTS := overrideStack l ! idx,
             prefixCaller := overrideStack l ! (idx + 1),
             prefixLevel := overrideStack l ! (idx + 2),
             overrideStack := take idx (overrideStack l)\<rparr>
      else l)"

text \<open>
  \<open>OverridePrefix\<close> returns its receiver; with the state passed explicitly, the value
  handed on to a chained call is the receiver's new state.
\<close>

definition OverridePrefix :: "bool \<Rightarrow> bool \<Rightarrow> bool \<Rightarrow> Logger \<Rightarrow> Logger" where
  "OverridePrefix showTimestamp showCaller showLevel l =
     pushOverride showTimestamp showCaller showLevel l"

section \<open>Prefixes\<close>

definition getOutput :: "Logger \<Rightarrow> go_int \<Rightarrow> writer option" where
  "getOutput l level =
     (let level = (if level <s LOG then LOG else level);
          level = (if CRITICAL <s level then CRITICAL else level)
      in output l level)"

definition getLevelString :: "go_int \<Rightarrow> string" where
  "getLevelString level =
     (let level = (if level <s LOG then LOG else level);
          level = (if CRITICAL <s level then CRITICAL else level)
      in if level = LOG then ''LOG ''
         else if level = INFO then ''INFO''
         else if level = WARN then ''WARN''
         else if level = ERROR then ''ERRO''
         else if level = CRITICAL then ''CRIT''
         else ''    '')"

text \<open>\<open>strings.Index(s, substr)\<close>, with \<open>None\<close> for \<open>-1\<close>.\<close>

fun Index :: "string \<Rightarrow> string \<Rightarrow> nat option" where
  "Index [] substr = (if substr = [] then Some 0 else None)"
| "Index (c # cs) substr =
     (if take (length substr) (c # cs) = substr then Some 0
      else map_option Suc (Index cs substr))"

text \<open>
  The caller part of the prefix: of at most 16 frames, the first one after frame 0
  whose function name does not contain the key taken from frame 0. The key is the name
  of frame 0 up to the marker of a method of \<open>*Logger\<close>, a dot followed by the
  parenthesised receiver type.
\<close>

definition Logger_marker :: string where
  "Logger_marker = ''.('' @ ''*Logger)''"

definition callerPrefix :: "env \<Rightarrow> string" where
  "callerPrefix e =
     (case take 16 (Callers e) of
        [] \<Rightarrow> ''''
      | f # fs \<Rightarrow>
          let key = fst f;
              key = (case Index key Logger_marker of
                       Some pos \<Rightarrow> take pos key
                     | None \<Rightarrow> key)
          in case find (\<lambda>(name, line). Index name key = None) fs of
               Some (name, line) \<Rightarrow> Sprintf e ''%s:%d '' [StrArg name, IntArg line]
             | None \<Rightarrow> '''')"

definition getLogPrefix :: "env \<Rightarrow> nat \<Rightarrow> Logger \<Rightarrow> go_int \<Rightarrow> string" where
  "getLogPrefix e n l level =
     (if prefixTS l then NowFormat e n (fmtTimestamp l) @ '' '' else '''') @
     (if prefixCaller l then callerPrefix e else '''') @
     (if prefixLevel l then getLevelString level @ '' '' else '''')"

section \<open>Emission\<close>

definition Fprintf :: "env \<Rightarrow> writer \<Rightarrow> string \<Rightarrow> trace \<Rightarrow> string option \<times> trace" where
  "Fprintf e w text tr =
     (let err = WriteErr e (length tr) w text in (err, tr @ [(w, text, err)]))"

text \<open>
  \<open>logf\<close> calls itself when a write fails, and does so for as long as writes to
  \<open>os.Stderr\<close> keep failing. The first argument after the environment bounds the depth
  of these calls; \<open>None\<close> says that the bound was not enough for the call to come back.
\<close>

fun logf :: "env \<Rightarrow> nat \<Rightarrow> writer option \<Rightarrow> go_int \<Rightarrow> string \<Rightarrow> arg list \<Rightarrow> Logger \<Rightarrow> trace
    \<Rightarrow> outcome option" where
  "logf e 0 w level format a l tr = None"
| "logf e (Suc k) w level format a l tr =
     (let level = (if CRITICAL <s level then CRITICAL else level)
      in if verbosity l \<le>s level then
           if level = CRITICAL then Some (Panicked (Msg (Sprintf e format a)) l tr)
           else
             let w = (if w = None then getOutput l level else w);
                 prefix = getLogPrefix e (length tr) l level;
                 msg = Sprintf e format a
             in case w of
                  None \<Rightarrow> Some (Panicked NilWriter l tr)
                | Some wr \<Rightarrow>
                    (case Fprintf e wr (Sprintf e ''%s%s'' [StrArg prefix, StrArg msg]) tr of
                       (None, tr') \<Rightarrow> Some (Returned (popOverride l) tr')
                     | (Some err, tr') \<Rightarrow>
                         (case logf e k (Some Stderr) ERROR ''logging.Logf(): %v'' [ErrArg err] l tr' of
                            Some (Returned l' tr'') \<Rightarrow> Some (Returned (popOverride l') tr'')
                          | r \<Rightarrow> r))
         else Some (Returned (popOverride l) tr))"

definition Log :: "env \<Rightarrow> nat \<Rightarrow> string \<Rightarrow> Logger \<Rightarrow> trace \<Rightarrow> outcome option" where
  "Log e k msg l tr = logf e k (getOutput l LOG) LOG msg [] l tr"

definition Info :: "env \<Rightarrow> nat \<Rightarrow> string \<Rightarrow> Logger \<Rightarrow> trace \<Rightarrow> outcome option" where
  "Info e k msg l tr = logf e k (getOutput l INFO) INFO msg [] l tr"

definition Warn :: "env \<Rightarrow> nat \<Rightarrow> string \<Rightarrow> Logger \<Rightarrow> trace \<Rightarrow> outcome option" where
  "Warn e k msg l tr = logf e k (getOutput l WARN) WARN msg [] l tr"

definition Error :: "env \<Rightarrow> nat \<Rightarrow> string \<Rightarrow> Logger \<Rightarrow> trace \<Rightarrow> outcome option" where
  "Error e k msg l tr = logf e k (getOutput l ERROR) ERROR msg [] l tr"

definition Critical :: "env \<Rightarrow> nat \<Rightarrow> string \<Rightarrow> Logger \<Rightarrow> trace \<Rightarrow> outcome option" where
  "Critical e k msg l tr = logf e k (getOutput l CRITICAL) CRITICAL msg [] l tr"

definition Logf :: "env \<Rightarrow> nat \<Rightarrow> string \<Rightarrow> arg list \<Rightarrow> Logger \<Rightarrow> trace \<Rightarrow> outcome option" where
  "Logf e k format a l tr = logf e k (getOutput l LOG) LOG format a l tr"

definition Infof :: "env \<Rightarrow> nat \<Rightarrow> string \<Rightarrow> arg list \<Rightarrow> Logger \<Rightarrow> trace \<Rightarrow> outcome option" where
  "Infof e k format a l tr = logf e k (getOutput l INFO) INFO format a l tr"

definition Warnf :: "env \<Rightarrow> nat \<Rightarrow> string \<Rightarrow> arg list \<Rightarrow> Logger \<Rightarrow> trace \<Rightarrow> outcome option" where
  "Warnf e k format a l tr = logf e k (getOutput l WARN) WARN format a l tr"

definition Errorf :: "env \<Rightarrow> nat \<Rightarrow> string \<Rightarrow> arg list \<Rightarrow> Logger \<Rightarrow> trace \<Rightarrow> outcome option" where
  "Errorf e k format a l tr = logf e k (getOutput l ERROR) ERROR format a l tr"

definition Criticalf :: "env \<Rightarrow> nat \<Rightarrow> string \<Rightarrow> arg list \<Rightarrow> Logger \<Rightarrow> trace \<Rightarrow> outcome option" where
  "Criticalf e k format a l tr = logf e k (getOutput l CRITICAL) CRITICAL format a l tr"

definition Logln :: "env \<Rightarrow> nat \<Rightarrow> string \<Rightarrow> Logger \<Rightarrow> trace \<Rightarrow> outcome option" where
  "Logln e k msg l tr = logf e k (getOutput l LOG) LOG ''%s\<newline>'' [StrArg msg] l tr"

definition Infoln :: "env \<Rightarrow> nat \<Rightarrow> string \<Rightarrow> Logger \<Rightarrow> trace \<Rightarrow> outcome option" where
  "Infoln e k msg l tr = logf e k (getOutput l INFO) INFO ''%s\<newline>'' [StrArg msg] l tr"

definition Warnln :: "env \<Rightarrow> nat \<Rightarrow> string \<Rightarrow> Logger \<Rightarrow> trace \<Rightarrow> outcome option" where
  "Warnln e k msg l tr = logf e k (getOutput l WARN) WARN ''%s\<newline>'' [StrArg msg] l tr"

definition Errorln :: "env \<Rightarrow> nat \<Rightarrow> string \<Rightarrow> Logger \<Rightarrow> trace \<Rightarrow> outcome option" where
  "Errorln e k msg l tr = logf e k (getOutput l ERROR) ERROR ''%s\<newline>'' [StrArg msg] l tr"

definition Criticalln :: "env \<Rightarrow> nat \<Rightarrow> string \<Rightarrow> Logger \<Rightarrow> trace \<Rightarrow> outcome option" where
  "Criticalln e k msg l tr =
     logf e k (getOutput l CRITICAL) CRITICAL ''%s\<newline>'' [StrArg msg] l tr"

section \<open>Progress rendering\<close>

text \<open>The loop \<open>for ; i2 > i1; i1++ { s += symbol }\<close> of \<open>Progress\<close>.\<close>

function Progress_loop :: "go_int \<Rightarrow> go_int \<Rightarrow> string \<Rightarrow> string \<Rightarrow> string" where
  "Progress_loop i1 i2 symbol s =
     (if i1 <s i2 then Progress_loop (i1 + 1) i2 symbol (s @ symbol) else s)"
  by pat_completeness auto
termination
proof (relation "measure (\<lambda>(i1, i2, symbol, s). nat (sint i2 - sint i1))")
  show "wf (measure (\<lambda>(i1 :: go_int, i2 :: go_int, symbol :: string, s :: string).
    nat (sint i2 - sint i1)))"
    by simp
next
  fix i1 i2 :: go_int and symbol s :: string
  assume less: "i1 <s i2"
  have "sint i2 < 2 ^ 63"
    using sint_lt [of i2] by simp
  with less have up: "sint i1 + 1 < 2 ^ 63"
    by (simp add: word_sless_alt)
  have lo: "- (2 ^ 63) \<le> sint i1"
    using sint_ge [of i1] by simp
  have "sint (i1 + 1) = signed_take_bit 63 (sint i1 + 1)"
    by (simp add: sint_word_add)
  also have "\<dots> = sint i1 + 1"
    using up lo by (intro signed_take_bit_int_eq_self) simp_all
  finally have "sint (i1 + 1) = sint i1 + 1" .
  with less show "((i1 + 1, i2, symbol, s @ symbol), (i1, i2, symbol, s))
    \<in> measure (\<lambda>(i1, i2, symbol, s). nat (sint i2 - sint i1))"
    by (simp add: word_sless_alt)
qed

declare Progress_loop.simps [simp del]

definition Progress :: "go_int \<Rightarrow> go_int \<Rightarrow> go_int \<Rightarrow> string \<Rightarrow> string" where
  "Progress cur max' progressMax symbol =
     (if max' <s 1 \<or> progressMax <s 1 then ''''
      else if cur <s 0 \<or> max' \<le>s cur then ''''
      else
        let i1 = quo (cur * progressMax) max';
            i2 = quo ((cur + 1) * progressMax) max'
        in Progress_loop i1 i2 symbol '''')"

definition ProgressDot :: "go_int \<Rightarrow> go_int \<Rightarrow> go_int \<Rightarrow> string" where
  "ProgressDot cur max' progressMax = Progress cur max' progressMax ''.''"

definition LogProgress ::
  "env \<Rightarrow> nat \<Rightarrow> go_int \<Rightarrow> go_int \<Rightarrow> go_int \<Rightarrow> string \<Rightarrow> Logger \<Rightarrow> trace \<Rightarrow> outcome option" where
  "LogProgress e k cur max' progressMax symbol l tr =
     (let s = Progress cur max' progressMax symbol
      in if 0 < length s then
           let l = pushOverride False False False l
           in logf e k (getOutput l LOG) LOG s [] l tr
         else Some (Returned l tr))"

definition LogProgressDot ::
  "env \<Rightarrow> nat \<Rightarrow> go_int \<Rightarrow> go_int \<Rightarrow> go_int \<Rightarrow> Logger \<Rightarrow> trace \<Rightarrow> outcome option" where
  "LogProgressDot e k cur max' progressMax l tr = LogProgress e k cur max' progressMax ''.'' l tr"

definition InfoProgress ::
  "env \<Rightarrow> nat \<Rightarrow> go_int \<Rightarrow> go_int \<Rightarrow> go_int \<Rightarrow> string \<Rightarrow> Logger \<Rightarrow> trace \<Rightarrow> outcome option" where
  "InfoProgress e k cur max' progressMax symbol l tr =
     (let s = Progress cur max' progressMax symbol
      in if 0 < length s then
           let l = pushOverride False False False l
           in logf e k (getOutput l INFO) INFO s [] l tr
         else Some (Returned l tr))"

definition InfoProgressDot ::
  "env \<Rightarrow> nat \<Rightarrow> go_int \<Rightarrow> go_int \<Rightarrow> go_int \<Rightarrow> Logger \<Rightarrow> trace \<Rightarrow> outcome option" where
  "InfoProgressDot e k cur max' progressMax l tr = InfoProgress e k cur max' progressMax ''.'' l tr"

definition WarnProgress ::
  "env \<Rightarrow> nat \<Rightarrow> go_int \<Rightarrow> go_int \<Rightarrow> go_int \<Rightarrow> string \<Rightarrow> Logger \<Rightarrow> trace \<Rightarrow> outcome option" where
  "WarnProgress e k cur max' progressMax symbol l tr =
     (let s = Progress cur max' progressMax symbol
      in if 0 < length s then
           let l = pushOverride False False False l
           in logf e k (getOutput l WARN) WARN s [] l tr
         else Some (Returned l tr))"

definition WarnProgressDot ::
  "env \<Rightarrow> nat \<Rightarrow> go_int \<Rightarrow> go_int \<Rightarrow> go_int \<Rightarrow> Logger \<Rightarrow> trace \<Rightarrow> outcome option" where
  "WarnProgressDot e k cur max' progressMax l tr = WarnProgress e k cur max' progressMax ''.'' l tr"

definition ErrorProgress ::
  "env \<Rightarrow> nat \<Rightarrow> go_int \<Rightarrow> go_int \<Rightarrow> go_int \<Rightarrow> string \<Rightarrow> Logger \<Rightarrow> trace \<Rightarrow> outcome option" where
  "ErrorProgress e k cur max' progressMax symbol l tr =
     (let s = Progress cur max' progressMax symbol
      in if 0 < length s then
           let l = pushOverride False False False l
           in logf e k (getOutput l ERROR) ERROR s [] l tr
         else Some (Returned l tr))"

definition ErrorProgressDot ::
  "env \<Rightarrow> nat \<Rightarrow> go_int \<Rightarrow> go_int \<Rightarrow> go_int \<Rightarrow> Logger \<Rightarrow> trace \<Rightarrow> outcome option" where
  "ErrorProgressDot e k cur max' progressMax l tr =
     ErrorProgress e k cur max' progressMax ''.'' l tr"

section \<open>The public operations as data\<close>

text \<open>
  The fifteen log output functions, as calls: \<open>emit\<close> runs the function a call names,
  \<open>level_of\<close> is the level that function passes to \<open>logf\<close>, and \<open>message_of\<close> is the
  message as \<open>logf\<close> formats it, \<open>fmt.Sprintf(format, a...)\<close>.
\<close>

datatype emission =
    Call_Log string | Call_Info string | Call_Warn string | Call_Error string
  | Call_Critical string
  | Call_Logf string "arg list" | Call_Infof string "arg list" | Call_Warnf string "arg list"
  | Call_Errorf string "arg list" | Call_Criticalf string "arg list"
  | Call_Logln string | Call_Infoln string | Call_Warnln string | Call_Errorln string
  | Call_Criticalln string

fun emit :: "env \<Rightarrow> nat \<Rightarrow> emission \<Rightarrow> Logger \<Rightarrow> trace \<Rightarrow> outcome option" where
  "emit e k (Call_Log msg) l tr = Log e k msg l tr"
| "emit e k (Call_Info msg) l tr = Info e k msg l tr"
| "emit e k (Call_Warn msg) l tr = Warn e k msg l tr"
| "emit e k (Call_Error msg) l tr = Error e k msg l tr"
| "emit e k (Call_Critical msg) l tr = Critical e k msg l tr"
| "emit e k (Call_Logf format a) l tr = Logf e k format a l tr"
| "emit e k (Call_Infof format a) l tr = Infof e k format a l tr"
| "emit e k (Call_Warnf format a) l tr = Warnf e k format a l tr"
| "emit e k (Call_Errorf format a) l tr = Errorf e k format a l tr"
| "emit e k (Call_Criticalf format a) l tr = Criticalf e k format a l tr"
| "emit e k (Call_Logln msg) l tr = Logln e k msg l tr"
| "emit e k (Call_Infoln msg) l tr = Infoln e k msg l tr"
| "emit e k (Call_Warnln msg) l tr = Warnln e k msg l tr"
| "emit e k (Call_Errorln msg) l tr = Errorln e k msg l tr"
| "emit e k (Call_Criticalln msg) l tr = Criticalln e k msg l tr"

fun level_of :: "emission \<Rightarrow> go_int" where
  "level_of (Call_Log msg) = LOG"
| "level_of (Call_Info msg) = INFO"
| "level_of (Call_Warn msg) = WARN"
| "level_of (Call_Error msg) = ERROR"
| "level_of (Call_Critical msg) = CRITICAL"
| "level_of (Call_Logf format a) = LOG"
| "level_of (Call_Infof format a) = INFO"
| "level_of (Call_Warnf format a) = WARN"
| "level_of (Call_Errorf format a) = ERROR"
| "level_of (Call_Criticalf format a) = CRITICAL"
| "level_of (Call_Logln msg) = LOG"
| "level_of (Call_Infoln msg) = INFO"
| "level_of (Call_Warnln msg) = WARN"
| "level_of (Call_Errorln msg) = ERROR"
| "level_of (Call_Criticalln msg) = CRITICAL"

fun message_of :: "env \<Rightarrow> emission \<Rightarrow> string" where
  "message_of e (Call_Log msg) = Sprintf e msg []"
| "message_of e (Call_Info msg) = Sprintf e msg []"
| "message_of e (Call_Warn msg) = Sprintf e msg []"
| "message_of e (Call_Error msg) = Sprintf e msg []"
| "message_of e (Call_Critical msg) = Sprintf e msg []"
| "message_of e (Call_Logf format a) = Sprintf e format a"
| "message_of e (Call_Infof format a) = Sprintf e format a"
| "message_of e (Call_Warnf format a) = Sprintf e format a"
| "message_of e (Call_Errorf format a) = Sprintf e format a"
| "message_of e (Call_Criticalf format a) = Sprintf e format a"
| "message_of e (Call_Logln msg) = Sprintf e ''%s\<newline>'' [StrArg msg]"
| "message_of e (Call_Infoln msg) = Sprintf e ''%s\<newline>'' [StrArg msg]"
| "message_of e (Call_Warnln msg) = Sprintf e ''%s\<newline>'' [StrArg msg]"
| "message_of e (Call_Errorln msg) = Sprintf e ''%s\<newline>'' [StrArg msg]"
| "message_of e (Call_Criticalln msg) = Sprintf e ''%s\<newline>'' [StrArg msg]"

text \<open>
  Every operation of a \<open>Logger\<close> that can change it, as a call. The getters change
  nothing. The package-level functions are the same operations on the logger
  \<open>Global()\<close>.
\<close>

datatype call =
    Call_SetVerbosity go_int
  | Call_IncreaseVerbosity
  | Call_DecreaseVerbosity
  | Call_SetPrefixTimestamp bool
  | Call_SetTimestampFormat string
  | Call_SetPrefixCaller bool
  | Call_SetPrefixLevel bool
  | Call_SetOutput go_int "writer option"
  | Call_OverridePrefix bool bool bool
  | Call_emit emission
  | Call_LogProgress go_int go_int go_int string
  | Call_LogProgressDot go_int go_int go_int
  | Call_InfoProgress go_int go_int go_int string
  | Call_InfoProgressDot go_int go_int go_int
  | Call_WarnProgress go_int go_int go_int string
  | Call_WarnProgressDot go_int go_int go_int
  | Call_ErrorProgress go_int go_int go_int string
  | Call_ErrorProgressDot go_int go_int go_int

fun run :: "env \<Rightarrow> nat \<Rightarrow> call \<Rightarrow> Logger \<Rightarrow> trace \<Rightarrow> outcome option" where
  "run e k (Call_SetVerbosity level) l tr = Some (Returned (SetVerbosity level l) tr)"
| "run e k Call_IncreaseVerbosity l tr = Some (Returned (snd (IncreaseVerbosity l)) tr)"
| "run e k Call_DecreaseVerbosity l tr = Some (Returned (snd (DecreaseVerbosity l)) tr)"
| "run e k (Call_SetPrefixTimestamp b) l tr = Some (Returned (SetPrefixTimestamp b l) tr)"
| "run e k (Call_SetTimestampFormat format) l tr = Some (Returned (SetTimestampFormat format l) tr)"
| "run e k (Call_SetPrefixCaller b) l tr = Some (Returned (SetPrefixCaller b l) tr)"
| "run e k (Call_SetPrefixLevel b) l tr = Some (Returned (SetPrefixLevel b l) tr)"
| "run e k (Call_SetOutput level w) l tr = Some (Returned (SetOutput level w l) tr)"
| "run e k (Call_OverridePrefix ts c lv) l tr = Some (Returned (OverridePrefix ts c lv l) tr)"
| "run e k (Call_emit c) l tr = emit e k c l tr"
| "run e k (Call_LogProgress cur m p symbol) l tr = LogProgress e k cur m p symbol l tr"
| "run e k (Call_LogProgressDot cur m p) l tr = LogProgressDot e k cur m p l tr"
| "run e k (Call_InfoProgress cur m p symbol) l tr = InfoProgress e k cur m p symbol l tr"
| "run e k (Call_InfoProgressDot cur m p) l tr = InfoProgressDot e k cur m p l tr"
| "run e k (Call_WarnProgress cur m p symbol) l tr = WarnProgress e k cur m p symbol l tr"
| "run e k (Call_WarnProgressDot cur m p) l tr = WarnProgressDot e k cur m p l tr"
| "run e k (Call_ErrorProgress cur m p symbol) l tr = ErrorProgress e k cur m p symbol l tr"
| "run e k (Call_ErrorProgressDot cur m p) l tr = ErrorProgressDot e k cur m p l tr"

text \<open>
  The logger states a program can see: that of \<open>NewLogger()\<close>, and the state any
  operation leaves, whether it returned or panicked (a caller may recover from the
  panic and go on using the logger).
\<close>

inductive reachable :: "Logger \<Rightarrow> bool" where
  reachable_NewLogger: "reachable NewLogger"
| reachable_run: "reachable l \<Longrightarrow> run e k c l tr = Some r \<Longrightarrow> reachable (logger_of r)"

section \<open>Notions used to state the properties\<close>

text \<open>
  The text that \<open>logf\<close> hands to \<open>fmt.Fprintf\<close> for an emission in state \<open>l\<close> after
  the writes of \<open>tr\<close>: the prefix built from the prefix flags of \<open>l\<close>, then the message.
\<close>

definition text_of :: "env \<Rightarrow> emission \<Rightarrow> Logger \<Rightarrow> trace \<Rightarrow> string" where
  "text_of e c l tr =
     Sprintf e ''%s%s'' [StrArg (getLogPrefix e (length tr) l (level_of c)), StrArg (message_of e c)]"

text \<open>
  An emission goes through undisturbed when its level is below \<open>CRITICAL\<close> and either
  the verbosity suppresses it, or its sink is not \<open>nil\<close> and the write returns no error.
  \<open>written\<close> is what such an emission adds to the trace.
\<close>

definition undisturbed :: "env \<Rightarrow> emission \<Rightarrow> Logger \<Rightarrow> trace \<Rightarrow> bool" where
  "undisturbed e c l tr \<longleftrightarrow>
     level_of c \<noteq> CRITICAL \<and>
     (level_of c <s verbosity l \<or>
      (case getOutput l (level_of c) of
         None \<Rightarrow> False
       | Some w \<Rightarrow> WriteErr e (length tr) w (text_of e c l tr) = None))"

definition written :: "env \<Rightarrow> emission \<Rightarrow> Logger \<Rightarrow> trace \<Rightarrow> trace" where
  "written e c l tr =
     (if level_of c <s verbosity l then []
      else case getOutput l (level_of c) of
             None \<Rightarrow> []
           | Some w \<Rightarrow> [(w, text_of e c l tr, None)])"

text \<open>
  The number of copies of the symbol in the result of \<open>Progress\<close>: how often the body
  of its loop runs, which is \<open>i2 - i1\<close> when that is positive (\<open>Progress_as_copies\<close>
  below).
\<close>

definition Progress_copies :: "go_int \<Rightarrow> go_int \<Rightarrow> go_int \<Rightarrow> nat" where
  "Progress_copies cur max' progressMax =
     (if max' <s 1 \<or> progressMax <s 1 then 0
      else if cur <s 0 \<or> max' \<le>s cur then 0
      else nat (sint (quo ((cur + 1) * progressMax) max') - sint (quo (cur * progressMax) max')))"

text \<open>
  What holds of every reachable state: the verbosity is one of the five levels, and the
  override stack holds whole triples.
\<close>

definition invariant :: "Logger \<Rightarrow> bool" where
  "invariant l \<longleftrightarrow>
     LOG \<le>s verbosity l \<and> verbosity l \<le>s CRITICAL \<and> length (overrideStack l) mod 3 = 0"

text \<open>
  An environment for closed examples. Its formatter is a fragment of \<open>fmt.Sprintf\<close>:
  \<open>%%\<close> is a percent sign, any other verb prints the next argument in its default
  format. Its clock stands at Go's reference time, so that a layout formats to itself.
  Its call stack is that of a call of \<open>Info\<close> from \<open>main.main\<close>. Writes to the sinks
  listed in \<open>failing\<close> return an error, all others succeed.
\<close>

fun digits :: "nat \<Rightarrow> string" where
  "digits n =
     (if n < 10 then [''0123456789'' ! n]
      else digits (n div 10) @ [''0123456789'' ! (n mod 10)])"

fun show_arg :: "arg \<Rightarrow> string" where
  "show_arg (StrArg s) = s"
| "show_arg (ErrArg s) = s"
| "show_arg (IntArg i) =
     (if i <s 0 then CHR ''-'' # digits (nat (- sint i)) else digits (nat (sint i)))"

fun example_Sprintf :: "string \<Rightarrow> arg list \<Rightarrow> string" where
  "example_Sprintf [] a = []"
| "example_Sprintf [c] a = (if c = CHR ''%'' then ''%!(NOVERB)'' else [c])"
| "example_Sprintf (c # d # cs) a =
     (if c \<noteq> CHR ''%'' then c # example_Sprintf (d # cs) a
      else if d = CHR ''%'' then CHR ''%'' # example_Sprintf cs a
      else case a of
             [] \<Rightarrow> ''%!'' @ [d] @ ''(MISSING)'' @ example_Sprintf cs a
           | x # xs \<Rightarrow> show_arg x @ example_Sprintf cs xs)"

definition example_env :: "writer list \<Rightarrow> env" where
  "example_env failing =
     \<lparr> Sprintf = example_Sprintf,
       NowFormat = (\<lambda>n layout. layout),
       Callers =
         [(''github.com/InfinityTools/go-logging'' @ Logger_marker @ ''.getLogPrefix'', 616),
          (''github.com/InfinityTools/go-logging'' @ Logger_marker @ ''.logf'', 586),
          (''github.com/InfinityTools/go-logging'' @ Logger_marker @ ''.Info'', 296),
          (''main.main'', 12),
          (''runtime.main'', 250)],
       WriteErr = (\<lambda>n w text. if w \<in> set failing then Some ''write failed'' else None) \<rparr>"

section \<open>Signed arithmetic on levels\<close>

lemmas scmp = word_sless_alt word_sle_eq

lemma sint_succ:
  fixes a b :: go_int
  assumes "a <s b"
  shows "sint (a + 1) = sint a + 1"
proof -
  have "sint b < 2 ^ 63"
    using sint_lt [of b] by simp
  with assms have up: "sint a + 1 < 2 ^ 63"
    by (simp add: scmp)
  have lo: "- (2 ^ 63) \<le> sint a"
    using sint_ge [of a] by simp
  have "sint (a + 1) = signed_take_bit 63 (sint a + 1)"
    by (simp add: sint_word_add)
  also have "\<dots> = sint a + 1"
    using up lo by (intro signed_take_bit_int_eq_self) simp_all
  finally show ?thesis .
qed

lemma sint_inc:
  fixes v :: go_int
  shows "v <s CRITICAL \<Longrightarrow> sint (v + 1) = sint v + 1"
  by (rule sint_succ)

lemma sint_dec:
  fixes v :: go_int
  assumes "LOG <s v"
  shows "sint (v - 1) = sint v - 1"
proof -
  have up: "sint v - 1 < 2 ^ 63"
    using sint_lt [of v] by simp
  have lo: "- (2 ^ 63) \<le> sint v - 1"
    using assms by (simp add: scmp)
  have "sint (v - 1) = signed_take_bit 63 (sint v - 1)"
    by (simp add: sint_word_diff)
  also have "\<dots> = sint v - 1"
    using up lo by (intro signed_take_bit_int_eq_self) simp_all
  finally show ?thesis .
qed

section \<open>Verbosity\<close>

lemma SetVerbosity_verbosity:
  "verbosity (SetVerbosity L l) =
     (if L <s LOG then LOG else if CRITICAL <s L then CRITICAL else L)"
  by (simp add: SetVerbosity_def Let_def scmp)

lemma SetVerbosity_range:
  "LOG \<le>s verbosity (SetVerbosity L l) \<and> verbosity (SetVerbosity L l) \<le>s CRITICAL"
  by (simp add: SetVerbosity_verbosity scmp)

text \<open>
  Claim C9. For every \<open>L\<close>, \<open>SetVerbosity(L)\<close> followed by \<open>GetVerbosity()\<close> yields \<open>L\<close>
  clamped into the range from \<open>LOG\<close> to \<open>CRITICAL\<close>. \<open>IncreaseVerbosity\<close> at \<open>CRITICAL\<close>
  and \<open>DecreaseVerbosity\<close> at \<open>LOG\<close> change nothing; below \<open>CRITICAL\<close> the first
  raises the verbosity by exactly one, above \<open>LOG\<close> the second lowers it by exactly one;
  and both return the verbosity they leave.
\<close>

theorem verbosity_operations:
  "GetVerbosity (SetVerbosity L l) =
     (if L <s LOG then LOG else if CRITICAL <s L then CRITICAL else L)
   \<and> LOG \<le>s GetVerbosity (SetVerbosity L l) \<and> GetVerbosity (SetVerbosity L l) \<le>s CRITICAL
   \<and> (verbosity l = CRITICAL \<longrightarrow> IncreaseVerbosity l = (CRITICAL, l))
   \<and> (verbosity l = LOG \<longrightarrow> DecreaseVerbosity l = (LOG, l))
   \<and> (verbosity l <s CRITICAL \<longrightarrow>
        IncreaseVerbosity l = (verbosity l + 1, l\<lparr>verbosity := verbosity l + 1\<rparr>)
        \<and> sint (verbosity l + 1) = sint (verbosity l) + 1)
   \<and> (LOG <s verbosity l \<longrightarrow>
        DecreaseVerbosity l = (verbosity l - 1, l\<lparr>verbosity := verbosity l - 1\<rparr>)
        \<and> sint (verbosity l - 1) = sint (verbosity l) - 1)
   \<and> fst (IncreaseVerbosity l) = GetVerbosity (snd (IncreaseVerbosity l))
   \<and> fst (DecreaseVerbosity l) = GetVerbosity (snd (DecreaseVerbosity l))"
proof -
  have set: "GetVerbosity (SetVerbosity L l) =
      (if L <s LOG then LOG else if CRITICAL <s L then CRITICAL else L)"
    by (simp add: GetVerbosity_def SetVerbosity_verbosity)
  have range: "LOG \<le>s GetVerbosity (SetVerbosity L l) \<and> GetVerbosity (SetVerbosity L l) \<le>s CRITICAL"
    using SetVerbosity_range [of L l] by (simp add: GetVerbosity_def)
  have top: "verbosity l = CRITICAL \<longrightarrow> IncreaseVerbosity l = (CRITICAL, l)"
    by (simp add: IncreaseVerbosity_def scmp)
  have bottom: "verbosity l = LOG \<longrightarrow> DecreaseVerbosity l = (LOG, l)"
    by (simp add: DecreaseVerbosity_def scmp)
  have up: "verbosity l <s CRITICAL \<longrightarrow>
      IncreaseVerbosity l = (verbosity l + 1, l\<lparr>verbosity := verbosity l + 1\<rparr>)
      \<and> sint (verbosity l + 1) = sint (verbosity l) + 1"
    by (simp add: IncreaseVerbosity_def sint_inc)
  have down: "LOG <s verbosity l \<longrightarrow>
      DecreaseVerbosity l = (verbosity l - 1, l\<lparr>verbosity := verbosity l - 1\<rparr>)
      \<and> sint (verbosity l - 1) = sint (verbosity l) - 1"
    by (simp add: DecreaseVerbosity_def sint_dec)
  have ret: "fst (IncreaseVerbosity l) = GetVerbosity (snd (IncreaseVerbosity l))
      \<and> fst (DecreaseVerbosity l) = GetVerbosity (snd (DecreaseVerbosity l))"
    by (simp add: IncreaseVerbosity_def DecreaseVerbosity_def GetVerbosity_def Let_def)
  from set range top bottom up down ret show ?thesis
    by blast
qed

theorem verbosity_operations_witness:
  "GetVerbosity (SetVerbosity 7 NewLogger) = CRITICAL
   \<and> GetVerbosity (SetVerbosity (- 3) NewLogger) = LOG
   \<and> IncreaseVerbosity (SetVerbosity CRITICAL NewLogger) = (CRITICAL, SetVerbosity CRITICAL NewLogger)
   \<and> DecreaseVerbosity (SetVerbosity LOG NewLogger) = (LOG, SetVerbosity LOG NewLogger)
   \<and> fst (IncreaseVerbosity NewLogger) = WARN
   \<and> fst (DecreaseVerbosity NewLogger) = LOG"
proof -
  have a: "GetVerbosity (SetVerbosity 7 NewLogger) = CRITICAL"
    using verbosity_operations [of 7 NewLogger] by (simp add: scmp)
  have b: "GetVerbosity (SetVerbosity (- 3) NewLogger) = LOG"
    using verbosity_operations [of "- 3" NewLogger] by (simp add: scmp)
  have c: "IncreaseVerbosity (SetVerbosity CRITICAL NewLogger)
      = (CRITICAL, SetVerbosity CRITICAL NewLogger)"
    using verbosity_operations [of L "SetVerbosity CRITICAL NewLogger" for L]
    by (simp add: SetVerbosity_verbosity scmp)
  have d: "DecreaseVerbosity (SetVerbosity LOG NewLogger) = (LOG, SetVerbosity LOG NewLogger)"
    using verbosity_operations [of L "SetVerbosity LOG NewLogger" for L]
    by (simp add: SetVerbosity_verbosity scmp)
  have e: "fst (IncreaseVerbosity NewLogger) = WARN"
    using verbosity_operations [of L NewLogger for L]
    by (simp add: NewLogger_def scmp)
  have f: "fst (DecreaseVerbosity NewLogger) = LOG"
    using verbosity_operations [of L NewLogger for L]
    by (simp add: NewLogger_def scmp)
  from a b c d e f show ?thesis by blast
qed

section \<open>Output sinks\<close>

lemma SetOutput_invalid_level:
  "level <s LOG \<or> CRITICAL <s level \<Longrightarrow> SetOutput level w l = l"
  by (simp add: SetOutput_def)

lemma SetOutput_nil_restores:
  "GetOutput (SetOutput LOG None l) LOG = Some Stdout"
  "GetOutput (SetOutput INFO None l) INFO = Some Stdout"
  "GetOutput (SetOutput CRITICAL None l) CRITICAL = Some Stderr"
  by (simp_all add: SetOutput_def GetOutput_def scmp)

text \<open>
  Claim C1 says that \<open>SetOutput(level, nil)\<close> sets the sink of every level from \<open>LOG\<close>
  to \<open>CRITICAL\<close> to its default, \<open>os.Stderr\<close> for \<open>WARN\<close>. The code at the input
  where it departs from the claim: the sink of \<open>WARN\<close> is \<open>os.Stderr\<close> on a new logger,
  and is \<open>nil\<close> after \<open>SetOutput(WARN, nil)\<close>.
\<close>

theorem SetOutput_nil_WARN:
  "GetOutput NewLogger WARN = Some Stderr
   \<and> GetOutput (SetOutput WARN None NewLogger) WARN = None"
  by (simp add: SetOutput_def GetOutput_def NewLogger_def scmp)

section \<open>The override stack\<close>

lemma popOverride_frame [simp]:
  "verbosity (popOverride l) = verbosity l"
  "output (popOverride l) = output l"
  "fmtTimestamp (popOverride l) = fmtTimestamp l"
  by (simp_all add: popOverride_def Let_def)

lemma pushOverride_frame [simp]:
  "verbosity (pushOverride a b c l) = verbosity l"
  "output (pushOverride a b c l) = output l"
  "fmtTimestamp (pushOverride a b c l) = fmtTimestamp l"
  by (simp_all add: pushOverride_def)

lemma popOverride_append:
  "overrideStack l = st @ [a, b, c] \<Longrightarrow>
   popOverride l = l\<lparr>prefixTS := a, prefixCaller := b, prefixLevel := c, overrideStack := st\<rparr>"
  by (simp add: popOverride_def Let_def nth_append)

lemma popOverride_pushOverride: "popOverride (pushOverride a b c l) = l"
proof -
  have "overrideStack (pushOverride a b c l)
      = overrideStack l @ [prefixTS l, prefixCaller l, prefixLevel l]"
    by (simp add: pushOverride_def)
  then have "popOverride (pushOverride a b c l)
      = (pushOverride a b c l)\<lparr>prefixTS := prefixTS l, prefixCaller := prefixCaller l,
          prefixLevel := prefixLevel l, overrideStack := overrideStack l\<rparr>"
    by (rule popOverride_append)
  also have "\<dots> = l"
    by (simp add: pushOverride_def)
  finally show ?thesis .
qed

lemma popOverride_short: "length (overrideStack l) < 3 \<Longrightarrow> popOverride l = l"
  by (simp add: popOverride_def)

lemma popOverride_length:
  "length (overrideStack (popOverride l)) =
     (if 2 < length (overrideStack l) then length (overrideStack l) - 3
      else length (overrideStack l))"
  by (simp add: popOverride_def Let_def)

lemma popOverride_triples:
  "length (overrideStack l) mod 3 = 0 \<Longrightarrow> length (overrideStack (popOverride l)) mod 3 = 0"
  by (simp add: popOverride_length mod_eq_0_iff_dvd)

lemma pushOverride_triples:
  "length (overrideStack l) mod 3 = 0 \<Longrightarrow>
   length (overrideStack (pushOverride a b c l)) mod 3 = 0"
  by (simp add: pushOverride_def mod_eq_0_iff_dvd)

section \<open>One step of an emission\<close>

lemma emit_Suc:
  "emit e (Suc k) c l tr =
     (if level_of c <s verbosity l then Some (Returned (popOverride l) tr)
      else if level_of c = CRITICAL then Some (Panicked (Msg (message_of e c)) l tr)
      else case getOutput l (level_of c) of
             None \<Rightarrow> Some (Panicked NilWriter l tr)
           | Some w \<Rightarrow>
               (case WriteErr e (length tr) w (text_of e c l tr) of
                  None \<Rightarrow> Some (Returned (popOverride l) (tr @ [(w, text_of e c l tr, None)]))
                | Some err \<Rightarrow>
                    (case logf e k (Some Stderr) ERROR ''logging.Logf(): %v'' [ErrArg err] l
                            (tr @ [(w, text_of e c l tr, Some err)]) of
                       Some (Returned l' tr'') \<Rightarrow> Some (Returned (popOverride l') tr'')
                     | r \<Rightarrow> r)))"
  by (cases c)
    (simp_all add: Log_def Info_def Warn_def Error_def Critical_def Logf_def Infof_def Warnf_def
      Errorf_def Criticalf_def Logln_def Infoln_def Warnln_def Errorln_def Criticalln_def
      Fprintf_def text_of_def Let_def scmp not_less split: option.split)

section \<open>What \<open>logf\<close> leaves alone\<close>

lemma logf_Suc_cases:
  assumes "logf e (Suc k) w level format a l tr = Some r"
  obtains
    (direct) tr' where "r = Returned (popOverride l) tr'"
  | (panic) p where "r = Panicked p l tr"
  | (nested_return) err tr' l' tr'' where
      "logf e k (Some Stderr) ERROR ''logging.Logf(): %v'' [ErrArg err] l tr' = Some (Returned l' tr'')"
      "r = Returned (popOverride l') tr''"
  | (nested_panic) err tr' p l' tr'' where
      "logf e k (Some Stderr) ERROR ''logging.Logf(): %v'' [ErrArg err] l tr' = Some (Panicked p l' tr'')"
      "r = Panicked p l' tr''"
  using assms
  by (auto simp: Let_def Fprintf_def split: if_splits option.splits outcome.splits)

lemma logf_frame:
  "logf e k w level format a l tr = Some r \<Longrightarrow>
   verbosity (logger_of r) = verbosity l \<and> output (logger_of r) = output l
   \<and> fmtTimestamp (logger_of r) = fmtTimestamp l"
proof (induction k arbitrary: w level format a l tr r)
  case 0
  then show ?case by simp
next
  case (Suc k)
  from Suc.prems show ?case
  proof (cases rule: logf_Suc_cases)
    case (direct tr')
    then show ?thesis by simp
  next
    case (panic p)
    then show ?thesis by simp
  next
    case (nested_return err tr' l' tr'')
    from Suc.IH [OF nested_return(1)] nested_return(2) show ?thesis by simp
  next
    case (nested_panic err tr' p l' tr'')
    from Suc.IH [OF nested_panic(1)] nested_panic(2) show ?thesis by simp
  qed
qed

lemma logf_triples:
  "logf e k w level format a l tr = Some r \<Longrightarrow> length (overrideStack l) mod 3 = 0 \<Longrightarrow>
   length (overrideStack (logger_of r)) mod 3 = 0"
proof (induction k arbitrary: w level format a l tr r)
  case 0
  then show ?case by simp
next
  case (Suc k)
  from Suc.prems(1) show ?case
  proof (cases rule: logf_Suc_cases)
    case (direct tr')
    with Suc.prems(2) show ?thesis by (simp add: popOverride_triples)
  next
    case (panic p)
    with Suc.prems(2) show ?thesis by simp
  next
    case (nested_return err tr' l' tr'')
    from Suc.IH [OF nested_return(1) Suc.prems(2)] nested_return(2) show ?thesis
      by (simp add: popOverride_triples)
  next
    case (nested_panic err tr' p l' tr'')
    from Suc.IH [OF nested_panic(1) Suc.prems(2)] nested_panic(2) show ?thesis by simp
  qed
qed

lemma logf_empty_stack:
  "logf e k w level format a l tr = Some r \<Longrightarrow> overrideStack l = [] \<Longrightarrow> logger_of r = l"
proof (induction k arbitrary: w level format a l tr r)
  case 0
  then show ?case by simp
next
  case (Suc k)
  from Suc.prems(2) have pop: "popOverride l = l"
    by (simp add: popOverride_short)
  from Suc.prems(1) show ?case
  proof (cases rule: logf_Suc_cases)
    case (direct tr')
    with pop show ?thesis by simp
  next
    case (panic p)
    then show ?thesis by simp
  next
    case (nested_return err tr' l' tr'')
    from Suc.IH [OF nested_return(1) Suc.prems(2)] nested_return(2) pop show ?thesis
      by simp
  next
    case (nested_panic err tr' p l' tr'')
    from Suc.IH [OF nested_panic(1) Suc.prems(2)] nested_panic(2) show ?thesis by simp
  qed
qed

lemma emit_logf:
  "\<exists>format a. emit e k c l tr = logf e k (getOutput l (level_of c)) (level_of c) format a l tr"
  by (cases c)
    (auto simp: Log_def Info_def Warn_def Error_def Critical_def Logf_def Infof_def Warnf_def
      Errorf_def Criticalf_def Logln_def Infoln_def Warnln_def Errorln_def Criticalln_def)

lemma Progress_call_logf:
  "LogProgress e k cur m p symbol l tr = Some r \<Longrightarrow>
     r = Returned l tr \<or>
     (\<exists>w level format a. logf e k w level format a (pushOverride False False False l) tr = Some r)"
  "InfoProgress e k cur m p symbol l tr = Some r \<Longrightarrow>
     r = Returned l tr \<or>
     (\<exists>w level format a. logf e k w level format a (pushOverride False False False l) tr = Some r)"
  "WarnProgress e k cur m p symbol l tr = Some r \<Longrightarrow>
     r = Returned l tr \<or>
     (\<exists>w level format a. logf e k w level format a (pushOverride False False False l) tr = Some r)"
  "ErrorProgress e k cur m p symbol l tr = Some r \<Longrightarrow>
     r = Returned l tr \<or>
     (\<exists>w level format a. logf e k w level format a (pushOverride False False False l) tr = Some r)"
  by (auto simp: LogProgress_def InfoProgress_def WarnProgress_def ErrorProgress_def Let_def
      split: if_splits)

section \<open>Invariants of the reachable states\<close>

lemma invariant_logf:
  "logf e k w level format a l tr = Some r \<Longrightarrow> invariant l \<Longrightarrow> invariant (logger_of r)"
  using logf_frame [of e k w level format a l tr r] logf_triples [of e k w level format a l tr r]
  by (simp add: invariant_def)

lemma invariant_emit:
  assumes "emit e k c l tr = Some r" and "invariant l"
  shows "invariant (logger_of r)"
proof -
  from emit_logf [of e k c l tr] assms(1) obtain format a where
    "logf e k (getOutput l (level_of c)) (level_of c) format a l tr = Some r"
    by auto
  then show ?thesis
    using assms(2) by (rule invariant_logf)
qed

lemma invariant_pushOverride: "invariant l \<Longrightarrow> invariant (pushOverride a b c l)"
  by (simp add: invariant_def pushOverride_triples)

lemma invariant_run:
  assumes "run e k c l tr = Some r" and "invariant l"
  shows "invariant (logger_of r)"
proof (cases c)
  case (Call_SetVerbosity level)
  with assms show ?thesis
    using SetVerbosity_range [of level l]
    by (auto simp: invariant_def SetVerbosity_def Let_def)
next
  case Call_IncreaseVerbosity
  with assms show ?thesis
    by (auto simp: invariant_def IncreaseVerbosity_def scmp sint_inc)
next
  case Call_DecreaseVerbosity
  with assms show ?thesis
    by (auto simp: invariant_def DecreaseVerbosity_def scmp sint_dec)
next
  case (Call_SetPrefixTimestamp b)
  with assms show ?thesis by (auto simp: invariant_def SetPrefixTimestamp_def)
next
  case (Call_SetTimestampFormat f)
  with assms show ?thesis by (auto simp: invariant_def SetTimestampFormat_def)
next
  case (Call_SetPrefixCaller b)
  with assms show ?thesis by (auto simp: invariant_def SetPrefixCaller_def)
next
  case (Call_SetPrefixLevel b)
  with assms show ?thesis by (auto simp: invariant_def SetPrefixLevel_def)
next
  case (Call_SetOutput level w)
  with assms show ?thesis by (auto simp: invariant_def SetOutput_def Let_def)
next
  case (Call_OverridePrefix a b c')
  with assms show ?thesis by (auto simp: OverridePrefix_def invariant_pushOverride)
next
  case (Call_emit x)
  with assms show ?thesis
    by (auto dest: invariant_emit)
next
  case (Call_LogProgress cur m p symbol)
  with assms Progress_call_logf(1) [of e k cur m p symbol l tr r] show ?thesis
    by (auto dest: invariant_logf simp: invariant_pushOverride)
next
  case (Call_LogProgressDot cur m p)
  with assms Progress_call_logf(1) [of e k cur m p "''.''" l tr r] show ?thesis
    by (auto dest: invariant_logf simp: invariant_pushOverride LogProgressDot_def)
next
  case (Call_InfoProgress cur m p symbol)
  with assms Progress_call_logf(2) [of e k cur m p symbol l tr r] show ?thesis
    by (auto dest: invariant_logf simp: invariant_pushOverride)
next
  case (Call_InfoProgressDot cur m p)
  with assms Progress_call_logf(2) [of e k cur m p "''.''" l tr r] show ?thesis
    by (auto dest: invariant_logf simp: invariant_pushOverride InfoProgressDot_def)
next
  case (Call_WarnProgress cur m p symbol)
  with assms Progress_call_logf(3) [of e k cur m p symbol l tr r] show ?thesis
    by (auto dest: invariant_logf simp: invariant_pushOverride)
next
  case (Call_WarnProgressDot cur m p)
  with assms Progress_call_logf(3) [of e k cur m p "''.''" l tr r] show ?thesis
    by (auto dest: invariant_logf simp: invariant_pushOverride WarnProgressDot_def)
next
  case (Call_ErrorProgress cur m p symbol)
  with assms Progress_call_logf(4) [of e k cur m p symbol l tr r] show ?thesis
    by (auto dest: invariant_logf simp: invariant_pushOverride)
next
  case (Call_ErrorProgressDot cur m p)
  with assms Progress_call_logf(4) [of e k cur m p "''.''" l tr r] show ?thesis
    by (auto dest: invariant_logf simp: invariant_pushOverride ErrorProgressDot_def)
qed

lemma reachable_invariant: "reachable l \<Longrightarrow> invariant l"
proof (induction rule: reachable.induct)
  case reachable_NewLogger
  show ?case by (simp add: invariant_def NewLogger_def scmp)
next
  case (reachable_run l e k c tr r)
  then show ?case by (simp add: invariant_run)
qed

section \<open>Emissions\<close>

declare emit.simps [simp del]

text \<open>
  With the \<open>nil\<close> sink that \<open>SetOutput(WARN, nil)\<close> leaves, a warning that is not
  suppressed panics inside \<open>fmt.Fprintf\<close>.
\<close>

lemma Warn_on_nil_sink:
  "emit (example_env []) 1 (Call_Warn ''low disk'') (SetOutput WARN None NewLogger) []
     = Some (Panicked NilWriter (SetOutput WARN None NewLogger) [])"
  by (simp add: emit_Suc getOutput_def SetOutput_def NewLogger_def scmp)

lemma reachable_step:
  "reachable l \<Longrightarrow> reachable (SetVerbosity level l)"
  "reachable l \<Longrightarrow> reachable (SetPrefixTimestamp b l)"
  "reachable l \<Longrightarrow> reachable (SetPrefixCaller b l)"
  "reachable l \<Longrightarrow> reachable (SetPrefixLevel b l)"
  "reachable l \<Longrightarrow> reachable (SetOutput level w l)"
  "reachable l \<Longrightarrow> reachable (OverridePrefix ts c lv l)"
  using reachable_run [of l "example_env []" 0 "Call_SetVerbosity level" "[]"]
    reachable_run [of l "example_env []" 0 "Call_SetPrefixTimestamp b" "[]"]
    reachable_run [of l "example_env []" 0 "Call_SetPrefixCaller b" "[]"]
    reachable_run [of l "example_env []" 0 "Call_SetPrefixLevel b" "[]"]
    reachable_run [of l "example_env []" 0 "Call_SetOutput level w" "[]"]
    reachable_run [of l "example_env []" 0 "Call_OverridePrefix ts c lv" "[]"]
  by simp_all

lemma emit_undisturbed:
  assumes "undisturbed e c l tr"
  shows "emit e (Suc k) c l tr = Some (Returned (popOverride l) (tr @ written e c l tr))"
  using assms
  by (auto simp: emit_Suc undisturbed_def written_def split: option.splits)

lemma emit_empty_stack:
  assumes "emit e k c l tr = Some r" and "overrideStack l = []"
  shows "logger_of r = l"
proof -
  from emit_logf [of e k c l tr] assms(1) obtain format a where
    "logf e k (getOutput l (level_of c)) (level_of c) format a l tr = Some r"
    by auto
  then show ?thesis
    using assms(2) by (rule logf_empty_stack)
qed

text \<open>
  Claim C3 says that in every reachable state each level from \<open>LOG\<close> to \<open>CRITICAL\<close> has
  a sink that is not absent (besides the range of the verbosity and the length of the
  override stack, which \<open>reachable_invariant\<close> proves). The code at the input where it
  departs from the claim: after \<open>SetOutput(ERROR, nil)\<close> on a new logger, a reachable
  state, the sink of \<open>ERROR\<close> is \<open>nil\<close>.
\<close>

theorem reachable_nil_sink:
  "reachable (SetOutput ERROR None NewLogger)
   \<and> GetOutput (SetOutput ERROR None NewLogger) ERROR = None"
proof
  show "reachable (SetOutput ERROR None NewLogger)"
    by (rule reachable_step) (rule reachable_NewLogger)
  show "GetOutput (SetOutput ERROR None NewLogger) ERROR = None"
    by (simp add: SetOutput_def GetOutput_def scmp)
qed

text \<open>
  Claim C6. In every reachable logger state and for every message, \<open>Critical\<close>,
  \<open>Criticalf\<close> and \<open>Criticalln\<close> panic. The payload is exactly the formatted message,
  \<open>fmt.Sprintf(format, a...)\<close>, with the format \<open>"%s\n"\<close> for \<open>Criticalln\<close>; whatever the
  prefix flags are, no prefix is put before it; and nothing is written to any sink: the
  trace is the one before the call.
\<close>

theorem Critical_panics:
  assumes "reachable l"
  shows "Critical e (Suc k) msg l tr = Some (Panicked (Msg (Sprintf e msg [])) l tr)
    \<and> Criticalf e (Suc k) format a l tr = Some (Panicked (Msg (Sprintf e format a)) l tr)
    \<and> Criticalln e (Suc k) msg l tr
        = Some (Panicked (Msg (Sprintf e ''%s\<newline>'' [StrArg msg])) l tr)"
proof -
  from assms have "verbosity l \<le>s CRITICAL"
    using reachable_invariant [of l] by (simp add: invariant_def)
  then have shown: "\<not> CRITICAL <s verbosity l"
    by (simp add: scmp)
  have "emit e (Suc k) (Call_Critical msg) l tr = Some (Panicked (Msg (Sprintf e msg [])) l tr)"
    using shown by (simp add: emit_Suc)
  moreover have "emit e (Suc k) (Call_Criticalf format a) l tr
      = Some (Panicked (Msg (Sprintf e format a)) l tr)"
    using shown by (simp add: emit_Suc)
  moreover have "emit e (Suc k) (Call_Criticalln msg) l tr
      = Some (Panicked (Msg (Sprintf e ''%s\<newline>'' [StrArg msg])) l tr)"
    using shown by (simp add: emit_Suc)
  ultimately show ?thesis
    by (simp add: emit.simps)
qed

theorem Critical_panics_witness:
  "reachable (SetVerbosity CRITICAL (SetPrefixLevel True NewLogger))
   \<and> Critical (example_env []) 1 ''disk full'' (SetVerbosity CRITICAL (SetPrefixLevel True NewLogger)) []
       = Some (Panicked (Msg ''disk full'') (SetVerbosity CRITICAL (SetPrefixLevel True NewLogger)) [])
   \<and> Criticalf (example_env []) 1 ''disk %d full: %s'' [IntArg 3, StrArg ''sda'']
         (SetVerbosity CRITICAL (SetPrefixLevel True NewLogger)) []
       = Some (Panicked (Msg ''disk 3 full: sda'') (SetVerbosity CRITICAL (SetPrefixLevel True NewLogger)) [])
   \<and> Criticalln (example_env []) 1 ''disk full'' (SetVerbosity CRITICAL (SetPrefixLevel True NewLogger)) []
       = Some (Panicked (Msg ''disk full\<newline>'') (SetVerbosity CRITICAL (SetPrefixLevel True NewLogger)) [])"
proof -
  have r: "reachable (SetVerbosity CRITICAL (SetPrefixLevel True NewLogger))"
    by (intro reachable_step reachable_NewLogger)
  show ?thesis
    using r Critical_panics [OF r, of "example_env []" 0 "''disk full''" "[]"
        "''disk %d full: %s''" "[IntArg 3, StrArg ''sda'']"]
    by (simp add: example_env_def scmp)
qed

text \<open>
  Claim C7. An emission at a level other than \<open>CRITICAL\<close> that is strictly below the
  verbosity writes nothing to any sink (the trace stays as it was) and returns. The
  verbosity, the sinks and the timestamp format are unchanged. If a layer was pushed, so
  that the stack ends in a saved triple, exactly that triple is removed and the three
  prefix flags are restored from it; with an empty stack the logger is unchanged.
\<close>

theorem suppressed_emission:
  assumes "level_of c \<noteq> CRITICAL" and "level_of c <s verbosity l"
  shows "emit e (Suc k) c l tr = Some (Returned (popOverride l) tr)
    \<and> verbosity (popOverride l) = verbosity l
    \<and> output (popOverride l) = output l
    \<and> fmtTimestamp (popOverride l) = fmtTimestamp l
    \<and> (\<forall>st ts ca lv. overrideStack l = st @ [ts, ca, lv] \<longrightarrow>
          overrideStack (popOverride l) = st \<and> prefixTS (popOverride l) = ts
          \<and> prefixCaller (popOverride l) = ca \<and> prefixLevel (popOverride l) = lv)
    \<and> (overrideStack l = [] \<longrightarrow> popOverride l = l)"
proof -
  have "emit e (Suc k) c l tr = Some (Returned (popOverride l) tr)"
    using assms(2) by (simp add: emit_Suc)
  moreover have "\<forall>st ts ca lv. overrideStack l = st @ [ts, ca, lv] \<longrightarrow>
      overrideStack (popOverride l) = st \<and> prefixTS (popOverride l) = ts
      \<and> prefixCaller (popOverride l) = ca \<and> prefixLevel (popOverride l) = lv"
    by (simp add: popOverride_append)
  moreover have "overrideStack l = [] \<longrightarrow> popOverride l = l"
    by (simp add: popOverride_short)
  ultimately show ?thesis
    by simp
qed

theorem suppressed_emission_witness:
  "level_of (Call_Logln ''not shown'') \<noteq> CRITICAL
   \<and> level_of (Call_Logln ''not shown'') <s verbosity (OverridePrefix True False True NewLogger)
   \<and> emit (example_env []) 1 (Call_Logln ''not shown'') (OverridePrefix True False True NewLogger) []
       = Some (Returned NewLogger [])"
proof -
  have a: "level_of (Call_Logln ''not shown'') \<noteq> CRITICAL"
    by simp
  have b: "level_of (Call_Logln ''not shown'') <s verbosity (OverridePrefix True False True NewLogger)"
    by (simp add: OverridePrefix_def NewLogger_def scmp)
  show ?thesis
    using a b suppressed_emission [OF a b, of "example_env []" 0 "[]"]
    by (simp add: OverridePrefix_def popOverride_pushOverride)
qed

text \<open>
  Claim C10. In a logger state whose override stack is empty, an emission at a level
  other than \<open>CRITICAL\<close> leaves the three prefix flags as they were and the override
  stack empty, whatever becomes of the write.
\<close>

theorem emission_without_override:
  assumes "overrideStack l = []" and "level_of c \<noteq> CRITICAL"
  shows "(\<forall>r. emit e k c l tr = Some r \<longrightarrow>
            prefixTS (logger_of r) = prefixTS l \<and> prefixCaller (logger_of r) = prefixCaller l
            \<and> prefixLevel (logger_of r) = prefixLevel l \<and> overrideStack (logger_of r) = [])
    \<and> (undisturbed e c l tr \<longrightarrow>
            emit e (Suc k) c l tr = Some (Returned l (tr @ written e c l tr)))"
proof (intro conjI allI impI)
  fix r
  assume "emit e k c l tr = Some r"
  then have "logger_of r = l"
    using assms(1) by (rule emit_empty_stack)
  with assms(1) show "prefixTS (logger_of r) = prefixTS l"
    "prefixCaller (logger_of r) = prefixCaller l"
    "prefixLevel (logger_of r) = prefixLevel l"
    "overrideStack (logger_of r) = []"
    by simp_all
next
  assume "undisturbed e c l tr"
  then have "emit e (Suc k) c l tr = Some (Returned (popOverride l) (tr @ written e c l tr))"
    by (rule emit_undisturbed)
  with assms(1) show "emit e (Suc k) c l tr = Some (Returned l (tr @ written e c l tr))"
    by (simp add: popOverride_short)
qed

theorem emission_without_override_witness:
  "overrideStack (SetPrefixLevel True NewLogger) = []
   \<and> level_of (Call_Warnf ''%d files left'' [IntArg 3]) \<noteq> CRITICAL
   \<and> undisturbed (example_env []) (Call_Warnf ''%d files left'' [IntArg 3])
       (SetPrefixLevel True NewLogger) []
   \<and> emit (example_env []) 1 (Call_Warnf ''%d files left'' [IntArg 3]) (SetPrefixLevel True NewLogger) []
       = Some (Returned (SetPrefixLevel True NewLogger) [(Stderr, ''WARN 3 files left'', None)])
   \<and> prefixLevel (logger_of (Returned (SetPrefixLevel True NewLogger)
         [(Stderr, ''WARN 3 files left'', None)]))
       = prefixLevel (SetPrefixLevel True NewLogger)"
proof -
  let ?l = "SetPrefixLevel True NewLogger"
  let ?c = "Call_Warnf ''%d files left'' [IntArg 3]"
  have a: "overrideStack ?l = []"
    by (simp add: SetPrefixLevel_def NewLogger_def)
  have b: "level_of ?c \<noteq> CRITICAL"
    by simp
  have out: "getOutput ?l WARN = Some Stderr" "verbosity ?l = INFO"
    by (simp_all add: getOutput_def SetPrefixLevel_def NewLogger_def scmp)
  have u: "undisturbed (example_env []) ?c ?l []"
    by (simp add: undisturbed_def out example_env_def)
  have shown: "text_of (example_env []) ?c ?l [] = ''WARN 3 files left''"
    by (simp add: text_of_def getLogPrefix_def getLevelString_def SetPrefixLevel_def
        NewLogger_def example_env_def scmp)
  have w: "written (example_env []) ?c ?l [] = [(Stderr, ''WARN 3 files left'', None)]"
    by (simp add: written_def out shown scmp)
  have run: "emit (example_env []) 1 ?c ?l [] = Some (Returned ?l [(Stderr, ''WARN 3 files left'', None)])"
    using emission_without_override [OF a b, of "example_env []" 0 "[]"] u w
    by simp
  from a b u run show ?thesis
    by simp
qed

lemma OverridePrefix_fields:
  "prefixTS (OverridePrefix ts ca lv l) = ts"
  "prefixCaller (OverridePrefix ts ca lv l) = ca"
  "prefixLevel (OverridePrefix ts ca lv l) = lv"
  "overrideStack (OverridePrefix ts ca lv l)
     = overrideStack l @ [prefixTS l, prefixCaller l, prefixLevel l]"
  "verbosity (OverridePrefix ts ca lv l) = verbosity l"
  "output (OverridePrefix ts ca lv l) = output l"
  "fmtTimestamp (OverridePrefix ts ca lv l) = fmtTimestamp l"
  by (simp_all add: OverridePrefix_def pushOverride_def)

lemma popOverride_OverridePrefix: "popOverride (OverridePrefix ts ca lv l) = l"
  by (simp add: OverridePrefix_def popOverride_pushOverride)

text \<open>
  Claim C2 says that every emission, also one at \<open>CRITICAL\<close>, pops exactly one layer when
  one was pushed and restores the three prefix flags from it; the comment of
  \<open>OverridePrefix\<close> says the same: the override holds only for the next call of a log
  output function, \<open>Critical\<close>, \<open>Criticalf\<close> and \<open>Criticalln\<close> among them. The code at
  the input where it departs from the claim: after \<open>OverridePrefix(true, true, true)\<close> on
  a new logger, \<open>Critical("boom")\<close> panics before \<open>popOverride\<close> is reached and leaves the
  logger as it was, with the saved triple still on the stack and the three flags still
  overridden.
\<close>

theorem Critical_keeps_override_layer:
  "emit (example_env []) 1 (Call_Critical ''boom'') (OverridePrefix True True True NewLogger) []
     = Some (Panicked (Msg ''boom'') (OverridePrefix True True True NewLogger) [])
   \<and> overrideStack (OverridePrefix True True True NewLogger) = [False, False, False]
   \<and> prefixTS (OverridePrefix True True True NewLogger)
   \<and> prefixCaller (OverridePrefix True True True NewLogger)
   \<and> prefixLevel (OverridePrefix True True True NewLogger)"
  by (simp add: emit_Suc OverridePrefix_fields NewLogger_def example_env_def scmp)

text \<open>
  The other paths of an emission. In a logger state with at least one layer pushed, an
  emission at a level other than \<open>CRITICAL\<close> that is suppressed by the verbosity, or
  whose write to a sink that is not \<open>nil\<close> returns no error, returns, pops exactly one
  layer (the last saved triple) and restores the three prefix flags from it. An emission
  at \<open>CRITICAL\<close> in a reachable state never does: it panics before the pop, and stack and
  flags stay as they were.
\<close>

lemma emission_pops_one_layer:
  assumes "overrideStack l = st @ [ts, ca, lv]"
  shows "(undisturbed e c l tr \<longrightarrow>
            emit e (Suc k) c l tr
              = Some (Returned (l\<lparr>prefixTS := ts, prefixCaller := ca, prefixLevel := lv,
                                   overrideStack := st\<rparr>) (tr @ written e c l tr)))
    \<and> (level_of c = CRITICAL \<and> reachable l \<longrightarrow>
            emit e (Suc k) c l tr = Some (Panicked (Msg (message_of e c)) l tr))"
proof -
  have "emit e (Suc k) c l tr
      = Some (Returned (l\<lparr>prefixTS := ts, prefixCaller := ca, prefixLevel := lv,
                           overrideStack := st\<rparr>) (tr @ written e c l tr))"
    if "undisturbed e c l tr"
    using emit_undisturbed [OF that, of k] popOverride_append [OF assms] by simp
  moreover have "emit e (Suc k) c l tr = Some (Panicked (Msg (message_of e c)) l tr)"
    if "level_of c = CRITICAL" and "reachable l"
  proof -
    from that(2) have "\<not> CRITICAL <s verbosity l"
      using reachable_invariant [of l] by (simp add: invariant_def scmp)
    with that(1) show ?thesis
      by (simp add: emit_Suc)
  qed
  ultimately show ?thesis
    by blast
qed

lemma emission_pops_one_layer_example:
  "overrideStack (OverridePrefix False False True NewLogger) = [] @ [False, False, False]
   \<and> undisturbed (example_env []) (Call_Infoln ''done'') (OverridePrefix False False True NewLogger) []
   \<and> emit (example_env []) 1 (Call_Infoln ''done'') (OverridePrefix False False True NewLogger) []
       = Some (Returned NewLogger [(Stdout, ''INFO done\<newline>'', None)])
   \<and> level_of (Call_Criticalln ''stop'') = CRITICAL
   \<and> reachable (OverridePrefix False False True NewLogger)
   \<and> emit (example_env []) 1 (Call_Criticalln ''stop'') (OverridePrefix False False True NewLogger) []
       = Some (Panicked (Msg ''stop\<newline>'') (OverridePrefix False False True NewLogger) [])"
proof -
  have a: "overrideStack (OverridePrefix False False True NewLogger) = [] @ [False, False, False]"
    by (simp add: OverridePrefix_fields NewLogger_def)
  have b: "undisturbed (example_env []) (Call_Infoln ''done'')
      (OverridePrefix False False True NewLogger) []"
    by (simp add: undisturbed_def getOutput_def OverridePrefix_fields NewLogger_def
        example_env_def scmp)
  have c: "reachable (OverridePrefix False False True NewLogger)"
    by (intro reachable_step reachable_NewLogger)
  have d: "written (example_env []) (Call_Infoln ''done'') (OverridePrefix False False True NewLogger) []
      = [(Stdout, ''INFO done\<newline>'', None)]"
    by (simp add: written_def text_of_def getLogPrefix_def getLevelString_def getOutput_def
        OverridePrefix_fields NewLogger_def example_env_def scmp)
  have e: "(OverridePrefix False False True NewLogger)\<lparr>prefixTS := False, prefixCaller := False,
      prefixLevel := False, overrideStack := []\<rparr> = NewLogger"
    by (simp add: OverridePrefix_def pushOverride_def NewLogger_def)
  have f: "Sprintf (example_env []) ''%s\<newline>'' [StrArg ''stop''] = ''stop\<newline>''"
    by (simp add: example_env_def)
  show ?thesis
    using a b c
      emission_pops_one_layer [OF a, of "example_env []" "Call_Infoln ''done''" "[]" 0]
      emission_pops_one_layer [OF a, of "example_env []" "Call_Criticalln ''stop''" "[]" 0]
    by (simp add: d e f)
qed

text \<open>
  Claim C8 says that after \<open>OverridePrefix(t1)\<close> and \<open>OverridePrefix(t2)\<close> the first
  emission uses the flags of \<open>t2\<close>, the second those of \<open>t1\<close> and the third those from
  before the overrides; the comment of \<open>OverridePrefix\<close> counts \<open>Critical\<close> among the
  emissions that end an override. The code at the input where it departs from the claim,
  with \<open>t1\<close> the timestamp alone and \<open>t2\<close> the level alone on a new logger: the first
  emission is \<open>Critical("boom")\<close>, which panics and pops nothing; the second,
  \<open>Info("hello")\<close>, then writes \<open>"INFO hello"\<close>, under the flags of \<open>t2\<close>, where the
  claim has the timestamp of \<open>t1\<close>.
\<close>

theorem Critical_between_overrides:
  "emit (example_env []) 1 (Call_Critical ''boom'')
       (OverridePrefix False False True (OverridePrefix True False False NewLogger)) []
     = Some (Panicked (Msg ''boom'')
         (OverridePrefix False False True (OverridePrefix True False False NewLogger)) [])
   \<and> emit (example_env []) 1 (Call_Info ''hello'')
       (OverridePrefix False False True (OverridePrefix True False False NewLogger)) []
     = Some (Returned (OverridePrefix True False False NewLogger) [(Stdout, ''INFO hello'', None)])"
proof
  show "emit (example_env []) 1 (Call_Critical ''boom'')
       (OverridePrefix False False True (OverridePrefix True False False NewLogger)) []
     = Some (Panicked (Msg ''boom'')
         (OverridePrefix False False True (OverridePrefix True False False NewLogger)) [])"
    by (simp add: emit_Suc OverridePrefix_fields NewLogger_def example_env_def scmp)
  show "emit (example_env []) 1 (Call_Info ''hello'')
       (OverridePrefix False False True (OverridePrefix True False False NewLogger)) []
     = Some (Returned (OverridePrefix True False False NewLogger) [(Stdout, ''INFO hello'', None)])"
    by (simp add: emit_Suc text_of_def getLogPrefix_def getLevelString_def getOutput_def
        OverridePrefix_fields popOverride_OverridePrefix NewLogger_def example_env_def scmp)
qed

text \<open>
  The other paths of two overrides. Each \<open>OverridePrefix\<close> call applies its flags at
  once, pushes the triple that was current, and returns its receiver (here: the
  receiver's new state). After \<open>OverridePrefix(t1)\<close> and \<open>OverridePrefix(t2)\<close>, for
  emissions at levels other than \<open>CRITICAL\<close> that are suppressed or whose write to a sink
  that is not \<open>nil\<close> returns no error: the first runs under the flags of \<open>t2\<close> and
  leaves the state that \<open>OverridePrefix(t1)\<close> had made, the second runs under the flags
  of \<open>t1\<close> and leaves the state from before both overrides, and the third runs in that
  state. What each writes is \<open>written\<close> of the state it runs in.
\<close>

lemma OverridePrefix_twice:
  assumes "undisturbed e x1 (OverridePrefix ts2 ca2 lv2 (OverridePrefix ts1 ca1 lv1 l)) tr"
    and "tr1 = tr @ written e x1 (OverridePrefix ts2 ca2 lv2 (OverridePrefix ts1 ca1 lv1 l)) tr"
    and "undisturbed e x2 (OverridePrefix ts1 ca1 lv1 l) tr1"
    and "tr2 = tr1 @ written e x2 (OverridePrefix ts1 ca1 lv1 l) tr1"
    and "undisturbed e x3 l tr2"
  shows "prefixTS (OverridePrefix ts1 ca1 lv1 l) = ts1
    \<and> prefixCaller (OverridePrefix ts1 ca1 lv1 l) = ca1
    \<and> prefixLevel (OverridePrefix ts1 ca1 lv1 l) = lv1
    \<and> overrideStack (OverridePrefix ts1 ca1 lv1 l)
        = overrideStack l @ [prefixTS l, prefixCaller l, prefixLevel l]
    \<and> prefixTS (OverridePrefix ts2 ca2 lv2 (OverridePrefix ts1 ca1 lv1 l)) = ts2
    \<and> prefixCaller (OverridePrefix ts2 ca2 lv2 (OverridePrefix ts1 ca1 lv1 l)) = ca2
    \<and> prefixLevel (OverridePrefix ts2 ca2 lv2 (OverridePrefix ts1 ca1 lv1 l)) = lv2
    \<and> overrideStack (OverridePrefix ts2 ca2 lv2 (OverridePrefix ts1 ca1 lv1 l))
        = overrideStack (OverridePrefix ts1 ca1 lv1 l) @ [ts1, ca1, lv1]
    \<and> emit e (Suc k1) x1 (OverridePrefix ts2 ca2 lv2 (OverridePrefix ts1 ca1 lv1 l)) tr
        = Some (Returned (OverridePrefix ts1 ca1 lv1 l) tr1)
    \<and> emit e (Suc k2) x2 (OverridePrefix ts1 ca1 lv1 l) tr1 = Some (Returned l tr2)
    \<and> emit e (Suc k3) x3 l tr2 = Some (Returned (popOverride l) (tr2 @ written e x3 l tr2))"
proof -
  have first: "emit e (Suc k1) x1 (OverridePrefix ts2 ca2 lv2 (OverridePrefix ts1 ca1 lv1 l)) tr
      = Some (Returned (OverridePrefix ts1 ca1 lv1 l) tr1)"
    using emit_undisturbed [OF assms(1), of k1] assms(2)
    by (simp add: popOverride_OverridePrefix)
  have second: "emit e (Suc k2) x2 (OverridePrefix ts1 ca1 lv1 l) tr1 = Some (Returned l tr2)"
    using emit_undisturbed [OF assms(3), of k2] assms(4)
    by (simp add: popOverride_OverridePrefix)
  have third: "emit e (Suc k3) x3 l tr2 = Some (Returned (popOverride l) (tr2 @ written e x3 l tr2))"
    using assms(5) by (rule emit_undisturbed)
  from first second third show ?thesis
    by (simp add: OverridePrefix_fields)
qed

lemma OverridePrefix_twice_example:
  "undisturbed (example_env []) (Call_Info ''a'')
     (OverridePrefix False False True (OverridePrefix True False False NewLogger)) []
   \<and> undisturbed (example_env []) (Call_Warn ''b'') (OverridePrefix True False False NewLogger)
       [(Stdout, ''INFO a'', None)]
   \<and> undisturbed (example_env []) (Call_Error ''c'') NewLogger
       [(Stdout, ''INFO a'', None), (Stderr, ''15:04:05.000 b'', None)]
   \<and> emit (example_env []) 1 (Call_Info ''a'')
       (OverridePrefix False False True (OverridePrefix True False False NewLogger)) []
       = Some (Returned (OverridePrefix True False False NewLogger) [(Stdout, ''INFO a'', None)])
   \<and> emit (example_env []) 1 (Call_Warn ''b'') (OverridePrefix True False False NewLogger)
       [(Stdout, ''INFO a'', None)]
       = Some (Returned NewLogger [(Stdout, ''INFO a'', None), (Stderr, ''15:04:05.000 b'', None)])
   \<and> emit (example_env []) 1 (Call_Error ''c'') NewLogger
       [(Stdout, ''INFO a'', None), (Stderr, ''15:04:05.000 b'', None)]
       = Some (Returned NewLogger
           [(Stdout, ''INFO a'', None), (Stderr, ''15:04:05.000 b'', None), (Stderr, ''c'', None)])"
proof -
  let ?e = "example_env []"
  let ?la = "OverridePrefix True False False NewLogger"
  let ?lb = "OverridePrefix False False True ?la"
  let ?tra = "[(Stdout, ''INFO a'', None)]"
  let ?trb = "[(Stdout, ''INFO a'', None), (Stderr, ''15:04:05.000 b'', None)]"
  have out: "getOutput ?lb INFO = Some Stdout" "getOutput ?la WARN = Some Stderr"
    "getOutput NewLogger ERROR = Some Stderr"
    by (simp_all add: getOutput_def OverridePrefix_fields NewLogger_def scmp)
  have texts: "text_of ?e (Call_Info ''a'') ?lb [] = ''INFO a''"
    "text_of ?e (Call_Warn ''b'') ?la ?tra = ''15:04:05.000 b''"
    "text_of ?e (Call_Error ''c'') NewLogger ?trb = ''c''"
    by (simp_all add: text_of_def getLogPrefix_def getLevelString_def OverridePrefix_fields
        NewLogger_def TS_FMT_TIME_MILLI_def example_env_def scmp)
  have verb: "verbosity ?lb = INFO" "verbosity ?la = INFO" "verbosity NewLogger = INFO"
    by (simp_all add: OverridePrefix_fields NewLogger_def)
  have w1: "written ?e (Call_Info ''a'') ?lb [] = ?tra"
    by (simp add: written_def out texts verb scmp)
  have w2: "written ?e (Call_Warn ''b'') ?la ?tra = [(Stderr, ''15:04:05.000 b'', None)]"
    by (simp add: written_def out texts verb scmp)
  have w3: "written ?e (Call_Error ''c'') NewLogger ?trb = [(Stderr, ''c'', None)]"
    by (simp add: written_def out texts verb scmp)
  have u1: "undisturbed ?e (Call_Info ''a'') ?lb []"
    by (simp add: undisturbed_def out example_env_def)
  have u2: "undisturbed ?e (Call_Warn ''b'') ?la ?tra"
    by (simp add: undisturbed_def out example_env_def)
  have u3: "undisturbed ?e (Call_Error ''c'') NewLogger ?trb"
    by (simp add: undisturbed_def out example_env_def)
  have t1: "?tra = [] @ written ?e (Call_Info ''a'') ?lb []"
    by (simp add: w1)
  have t2: "?trb = ?tra @ written ?e (Call_Warn ''b'') ?la ?tra"
    by (simp add: w2)
  have pop: "popOverride NewLogger = NewLogger"
    by (simp add: popOverride_short NewLogger_def)
  show ?thesis
    using u1 u2 u3 OverridePrefix_twice [OF u1 t1 u2 t2 u3, of 0 0 0]
    by (simp add: w3 pop)
qed

text \<open>
  A write that fails makes \<open>logf\<close> report the error through a second call of \<open>logf\<close>,
  and both calls pop. With one layer pushed the second pop finds nothing, and the
  emission pops exactly one layer; with two layers pushed, one emission consumes both.
\<close>

lemma failed_write_pops_single_layer:
  "emit (example_env [Custom 0]) 2 (Call_Info ''hello'')
       (OverridePrefix False False True (SetOutput INFO (Some (Custom 0)) NewLogger)) []
     = Some (Returned (SetOutput INFO (Some (Custom 0)) NewLogger)
         [(Custom 0, ''INFO hello'', Some ''write failed''),
          (Stderr, ''ERRO logging.Logf(): write failed'', None)])"
proof -
  let ?l = "SetOutput INFO (Some (Custom 0)) NewLogger"
  have out: "output ?l INFO = Some (Custom 0)" "output ?l ERROR = Some Stderr"
    "verbosity ?l = INFO" "fmtTimestamp ?l = TS_FMT_TIME_MILLI"
    "overrideStack ?l = []"
    by (simp_all add: SetOutput_def NewLogger_def scmp)
  have pop: "popOverride ?l = ?l"
    by (simp add: popOverride_short out)
  show ?thesis
    by (subst numeral_2_eq_2)
      (simp add: emit_Suc text_of_def getLogPrefix_def getLevelString_def
        getOutput_def Fprintf_def OverridePrefix_fields popOverride_OverridePrefix out pop
        example_env_def scmp)
qed

lemma failed_write_pops_two_layers:
  "emit (example_env [Custom 0]) 2 (Call_Info ''hello'')
       (OverridePrefix False False True (OverridePrefix True False False
         (SetOutput INFO (Some (Custom 0)) NewLogger))) []
     = Some (Returned (SetOutput INFO (Some (Custom 0)) NewLogger)
         [(Custom 0, ''INFO hello'', Some ''write failed''),
          (Stderr, ''ERRO logging.Logf(): write failed'', None)])"
proof -
  let ?l = "SetOutput INFO (Some (Custom 0)) NewLogger"
  have out: "output ?l INFO = Some (Custom 0)" "output ?l ERROR = Some Stderr"
    "verbosity ?l = INFO" "fmtTimestamp ?l = TS_FMT_TIME_MILLI"
    by (simp_all add: SetOutput_def NewLogger_def scmp)
  show ?thesis
    by (subst numeral_2_eq_2)
      (simp add: emit_Suc text_of_def getLogPrefix_def getLevelString_def
        getOutput_def Fprintf_def OverridePrefix_fields popOverride_OverridePrefix out
        example_env_def scmp)
qed

section \<open>Progress\<close>

lemma sint_fits:
  "- (2 ^ 63) \<le> k \<Longrightarrow> k < 2 ^ 63 \<Longrightarrow> sint (word_of_int k :: go_int) = k"
  by (simp add: sint_sbintrunc' signed_take_bit_int_eq_self)

lemma sint_mult_fits:
  fixes a b :: go_int
  assumes "0 \<le> sint a" and "0 \<le> sint b" and "sint a * sint b < 2 ^ 63"
  shows "sint (a * b) = sint a * sint b"
proof -
  have nonneg: "0 \<le> sint a * sint b"
    using assms(1,2) by simp
  have "sint (a * b) = signed_take_bit 63 (sint a * sint b)"
    by (simp add: sint_word_mult)
  also have "\<dots> = sint a * sint b"
    using assms(3) nonneg by (intro signed_take_bit_int_eq_self) simp_all
  finally show ?thesis .
qed

lemma sint_quo:
  assumes "0 \<le> sint a" and "0 < sint b"
  shows "sint (quo a b) = sint a div sint b"
proof -
  have sd: "sint a sdiv sint b = sint a div sint b"
    using assms by (simp add: signed_divide_int_def sgn_if)
  have lo: "0 \<le> sint a div sint b"
    using assms by (simp add: pos_imp_zdiv_nonneg_iff)
  have "sint a div sint b \<le> sint a div 1"
    using assms by (intro zdiv_mono2) simp_all
  then have "sint a div sint b \<le> sint a"
    by simp
  moreover have "sint a < 2 ^ 63"
    using sint_lt [of a] by simp
  ultimately have up: "sint a div sint b < 2 ^ 63"
    by linarith
  show ?thesis
    using lo up by (simp add: quo_def sd sint_fits)
qed

lemma sint_of_nat_fits: "int n < 2 ^ 63 \<Longrightarrow> sint (of_nat n :: go_int) = int n"
  using sint_fits [of "int n"] by simp

lemma Progress_loop_eq:
  "Progress_loop i1 i2 symbol s = s @ concat (replicate (nat (sint i2 - sint i1)) symbol)"
proof (induction i1 i2 symbol s rule: Progress_loop.induct)
  case (1 i1 i2 symbol s)
  show ?case
  proof (cases "i1 <s i2")
    case True
    then have "nat (sint i2 - sint i1) = Suc (nat (sint i2 - (sint i1 + 1)))"
      by (simp add: scmp)
    then have "concat (replicate (nat (sint i2 - sint i1)) symbol)
        = symbol @ concat (replicate (nat (sint i2 - sint (i1 + 1))) symbol)"
      by (simp add: sint_succ [OF True])
    with True "1.IH" show ?thesis
      by (subst Progress_loop.simps) simp
  next
    case False
    then have "sint i2 - sint i1 \<le> 0"
      by (simp add: scmp)
    with False show ?thesis
      by (subst Progress_loop.simps) simp
  qed
qed

lemma Progress_as_copies:
  "Progress cur max' progressMax symbol
     = concat (replicate (Progress_copies cur max' progressMax) symbol)"
  by (simp add: Progress_def Progress_copies_def Progress_loop_eq Let_def)

lemma Progress_empty:
  "max' <s 1 \<or> progressMax <s 1 \<or> cur <s 0 \<or> max' \<le>s cur \<Longrightarrow>
   Progress cur max' progressMax symbol = ''''"
  by (auto simp: Progress_def)

lemma Progress_copies_fits:
  assumes "1 \<le>s max'" and "1 \<le>s progressMax" and "0 \<le>s cur" and "cur <s max'"
    and "(sint cur + 1) * sint progressMax < 2 ^ 63"
  shows "Progress_copies cur max' progressMax
    = nat ((sint cur + 1) * sint progressMax div sint max' - sint cur * sint progressMax div sint max')"
proof -
  from assms(1-4) have range: "1 \<le> sint max'" "1 \<le> sint progressMax" "0 \<le> sint cur"
    "sint cur < sint max'"
    by (simp_all add: scmp)
  have next': "sint (cur + 1) = sint cur + 1"
    using assms(4) by (rule sint_succ)
  have "sint cur * sint progressMax \<le> (sint cur + 1) * sint progressMax"
    using range by (simp add: mult_right_mono)
  with assms(5) have small: "sint cur * sint progressMax < 2 ^ 63"
    by linarith
  have m1: "sint (cur * progressMax) = sint cur * sint progressMax"
    using range small by (intro sint_mult_fits) simp_all
  have m2: "sint ((cur + 1) * progressMax) = (sint cur + 1) * sint progressMax"
    using range assms(5) sint_mult_fits [of "cur + 1" progressMax] by (simp add: next')
  have q1: "sint (quo (cur * progressMax) max') = sint cur * sint progressMax div sint max'"
    using range sint_quo [of "cur * progressMax" max'] by (simp add: m1)
  have q2: "sint (quo ((cur + 1) * progressMax) max')
      = (sint cur + 1) * sint progressMax div sint max'"
    using range sint_quo [of "(cur + 1) * progressMax" max'] by (simp add: m2)
  from range show ?thesis
    by (simp add: Progress_copies_def q1 q2 scmp)
qed

lemma Progress_copies_sum:
  assumes "1 \<le>s max'" and "1 \<le>s progressMax"
  shows "n \<le> nat (sint max') \<Longrightarrow> int n * sint progressMax < 2 ^ 63 \<Longrightarrow>
    (\<Sum>cur<n. Progress_copies (of_nat cur) max' progressMax)
      = nat (int n * sint progressMax div sint max')"
proof (induction n)
  case 0
  then show ?case by simp
next
  case (Suc n)
  from assms have range: "1 \<le> sint max'" "1 \<le> sint progressMax"
    by (simp_all add: scmp)
  have "sint max' < 2 ^ 63"
    using sint_lt [of max'] by simp
  with Suc.prems(1) have n: "int n < sint max'" "int n < 2 ^ 63"
    by linarith+
  then have cur: "sint (of_nat n :: go_int) = int n"
    by (simp add: sint_of_nat_fits)
  have "int n * sint progressMax \<le> int (Suc n) * sint progressMax"
    using range by (simp add: mult_right_mono)
  with Suc.prems(2) have small: "int n * sint progressMax < 2 ^ 63"
    by linarith
  from Suc.prems(1) have "n \<le> nat (sint max')"
    by simp
  from Suc.IH [OF this small]
  have IH: "(\<Sum>cur<n. Progress_copies (of_nat cur) max' progressMax)
      = nat (int n * sint progressMax div sint max')" .
  have step: "Progress_copies (of_nat n) max' progressMax
      = nat ((int n + 1) * sint progressMax div sint max' - int n * sint progressMax div sint max')"
    using Progress_copies_fits [of max' progressMax "of_nat n"] assms n Suc.prems(2)
    by (simp add: cur scmp algebra_simps)
  have mono: "int n * sint progressMax div sint max' \<le> (int n + 1) * sint progressMax div sint max'"
    using range by (intro zdiv_mono1) (simp_all add: mult_right_mono)
  have nonneg: "0 \<le> int n * sint progressMax div sint max'"
    using range by (simp add: pos_imp_zdiv_nonneg_iff)
  have "(\<Sum>cur<Suc n. Progress_copies (of_nat cur) max' progressMax)
      = nat (int n * sint progressMax div sint max')
        + nat ((int n + 1) * sint progressMax div sint max' - int n * sint progressMax div sint max')"
    by (simp add: IH step)
  also have "\<dots> = nat ((int n + 1) * sint progressMax div sint max')"
    using mono nonneg by linarith
  finally show ?case
    by (simp add: algebra_simps)
qed

lemma length_concat_replicate: "length (concat (replicate k s)) = k * length s"
  by (induction k) simp_all

lemma Progress_length:
  "length (Progress cur max' progressMax symbol)
     = Progress_copies cur max' progressMax * length symbol"
  by (simp add: Progress_as_copies length_concat_replicate)

text \<open>
  Claim C4 says that for every \<open>max \<ge> 1\<close> and \<open>progressMax \<ge> 1\<close> the copies of the symbol
  returned for \<open>cur = 0, \<dots>, max - 1\<close> add up to \<open>progressMax\<close>. Counterexample: with
  \<open>max = 2\<^sup>3\<^sup>2\<close> and \<open>progressMax = 2\<^sup>3\<^sup>1\<close> the product \<open>(cur + 1) * progressMax\<close> wraps
  around at the last position, which then gives no symbol: the dots add up to
  \<open>2\<^sup>3\<^sup>1 - 1\<close>.
\<close>

theorem Progress_total_overflow:
  "(\<Sum>cur<4294967296. length (Progress (of_nat cur) 4294967296 2147483648 ''.'')) = 2147483647"
proof -
  define n :: nat where "n = 4294967295"
  have sn: "Suc n = 4294967296"
    by (simp add: n_def)
  have "(\<Sum>cur<n. Progress_copies (of_nat cur) 4294967296 2147483648)
      = nat (int n * sint (2147483648 :: go_int) div sint (4294967296 :: go_int))"
    by (rule Progress_copies_sum) (simp_all add: n_def scmp)
  also have "\<dots> = 2147483647"
    by (simp add: n_def)
  finally have before: "(\<Sum>cur<n. Progress_copies (of_nat cur) 4294967296 2147483648) = 2147483647" .
  have last: "Progress_copies (of_nat n) 4294967296 2147483648 = 0"
    by (simp add: n_def Progress_copies_def quo_def signed_divide_int_def scmp)
  have "(\<Sum>cur<Suc n. length (Progress (of_nat cur) 4294967296 2147483648 ''.''))
      = (\<Sum>cur<Suc n. Progress_copies (of_nat cur) 4294967296 2147483648)"
    by (simp only: Progress_length list.size One_nat_def add_0 mult_1_right)
      (simp only: flip: One_nat_def, simp only: mult_1_right)
  also have "\<dots> = (\<Sum>cur<n. Progress_copies (of_nat cur) 4294967296 2147483648)
      + Progress_copies (of_nat n) 4294967296 2147483648"
    by (rule sum.lessThan_Suc)
  also have "\<dots> = 2147483647"
    by (simp only: before last add_0_right)
  finally show ?thesis
    by (simp only: sn)
qed

text \<open>
  Claim C4, amended. For every \<open>max \<ge> 1\<close> and \<open>progressMax \<ge> 1\<close> whose product is below
  \<open>2\<^sup>6\<^sup>3\<close>, and every symbol: each result of \<open>Progress\<close> is a number of copies of the
  symbol, and over \<open>cur = 0, \<dots>, max - 1\<close> these numbers add up to exactly
  \<open>progressMax\<close>; so the lengths of the results add up to \<open>progressMax\<close> symbols.
\<close>

theorem Progress_total:
  assumes "1 \<le>s max'" and "1 \<le>s progressMax" and "sint max' * sint progressMax < 2 ^ 63"
  shows "(\<forall>cur. Progress cur max' progressMax symbol
            = concat (replicate (Progress_copies cur max' progressMax) symbol))
    \<and> (\<Sum>cur<nat (sint max'). Progress_copies (of_nat cur) max' progressMax)
        = nat (sint progressMax)
    \<and> (\<Sum>cur<nat (sint max'). length (Progress (of_nat cur) max' progressMax symbol))
        = nat (sint progressMax) * length symbol"
proof -
  from assms(1) have pos: "0 < sint max'"
    by (simp add: scmp)
  then have "int (nat (sint max')) * sint progressMax < 2 ^ 63"
    using assms(3) by simp
  with Progress_copies_sum [OF assms(1,2), of "nat (sint max')"]
  have "(\<Sum>cur<nat (sint max'). Progress_copies (of_nat cur) max' progressMax)
      = nat (int (nat (sint max')) * sint progressMax div sint max')"
    by simp
  also have "\<dots> = nat (sint progressMax)"
    using pos by simp
  finally have copies: "(\<Sum>cur<nat (sint max'). Progress_copies (of_nat cur) max' progressMax)
      = nat (sint progressMax)" .
  have "(\<Sum>cur<nat (sint max'). length (Progress (of_nat cur) max' progressMax symbol))
      = (\<Sum>cur<nat (sint max'). Progress_copies (of_nat cur) max' progressMax) * length symbol"
    by (simp add: Progress_length sum_distrib_right)
  with copies show ?thesis
    by (simp add: Progress_as_copies)
qed

theorem Progress_total_witness:
  "(1 :: go_int) \<le>s 4 \<and> (1 :: go_int) \<le>s 2 \<and> sint (4 :: go_int) * sint (2 :: go_int) < 2 ^ 63
   \<and> Progress 0 4 2 ''*'' = '''' \<and> Progress 1 4 2 ''*'' = ''*''
   \<and> Progress 2 4 2 ''*'' = '''' \<and> Progress 3 4 2 ''*'' = ''*''
   \<and> (\<Sum>cur<4. length (Progress (of_nat cur) 4 2 ''*'')) = 2"
proof -
  have a: "(1 :: go_int) \<le>s 4" and b: "(1 :: go_int) \<le>s 2"
    and c: "sint (4 :: go_int) * sint (2 :: go_int) < 2 ^ 63"
    by (simp_all add: scmp)
  have d: "Progress 0 4 2 ''*'' = ''''" "Progress 1 4 2 ''*'' = ''*''"
    "Progress 2 4 2 ''*'' = ''''" "Progress 3 4 2 ''*'' = ''*''"
    by (simp_all add: Progress_as_copies Progress_copies_def quo_def signed_divide_int_def scmp)
  have "(\<Sum>cur<nat (sint (4 :: go_int)). length (Progress (of_nat cur) 4 2 ''*''))
      = nat (sint (2 :: go_int)) * length ''*''"
    using Progress_total [OF a b c, of "''*''"] by (elim conjE)
  then have e: "(\<Sum>cur<4. length (Progress (of_nat cur) 4 2 ''*'')) = 2"
    by simp
  from a b c d e show ?thesis
    by simp
qed

text \<open>
  Claim C5 says that for \<open>max \<ge> 1\<close>, \<open>progressMax \<ge> 1\<close> and \<open>0 \<le> cur < max\<close> the result is
  \<open>i2 - i1\<close> copies of the symbol, with \<open>i1 = \<lfloor>cur * progressMax / max\<rfloor>\<close> and
  \<open>i2 = \<lfloor>(cur + 1) * progressMax / max\<rfloor>\<close>. Counterexample: for \<open>cur = 2\<^sup>6\<^sup>2\<close>,
  \<open>max = 2\<^sup>6\<^sup>2 + 1\<close> and \<open>progressMax = 2\<close> these floors differ by one, so the claim
  gives one dot; the products wrap around and the code returns the empty string.
\<close>

theorem Progress_overflow:
  "(1 :: go_int) \<le>s 4611686018427387905 \<and> (1 :: go_int) \<le>s 2
   \<and> (0 :: go_int) \<le>s 4611686018427387904
   \<and> (4611686018427387904 :: go_int) <s 4611686018427387905
   \<and> Progress 4611686018427387904 4611686018427387905 2 ''.'' = ''''
   \<and> concat (replicate
         (nat ((4611686018427387904 + 1) * 2 div 4611686018427387905
               - 4611686018427387904 * 2 div 4611686018427387905)) ''.'') = ''.''"
  by (simp add: Progress_as_copies Progress_copies_def quo_def signed_divide_int_def scmp)

text \<open>
  Claim C5, amended. \<open>Progress\<close> returns the empty string whenever \<open>max < 1\<close>,
  \<open>progressMax < 1\<close> or \<open>cur\<close> is outside \<open>[0, max)\<close>. Otherwise, provided
  \<open>(cur + 1) * progressMax\<close> is below \<open>2\<^sup>6\<^sup>3\<close>, it returns exactly \<open>i2 - i1\<close> copies of the
  symbol, where \<open>i1 = \<lfloor>cur * progressMax / max\<rfloor>\<close> and
  \<open>i2 = \<lfloor>(cur + 1) * progressMax / max\<rfloor>\<close>, and \<open>i1 \<le> i2\<close>. \<open>Progress\<close> is a function of
  its four arguments alone: no logger state goes in or comes out.
\<close>

theorem Progress_result:
  "(max' <s 1 \<or> progressMax <s 1 \<or> cur <s 0 \<or> max' \<le>s cur \<longrightarrow>
      Progress cur max' progressMax symbol = '''')
   \<and> (1 \<le>s max' \<and> 1 \<le>s progressMax \<and> 0 \<le>s cur \<and> cur <s max'
        \<and> (sint cur + 1) * sint progressMax < 2 ^ 63 \<longrightarrow>
      Progress cur max' progressMax symbol
        = concat (replicate
            (nat ((sint cur + 1) * sint progressMax div sint max'
                  - sint cur * sint progressMax div sint max')) symbol)
      \<and> sint cur * sint progressMax div sint max'
          \<le> (sint cur + 1) * sint progressMax div sint max')"
proof (intro conjI impI)
  assume "max' <s 1 \<or> progressMax <s 1 \<or> cur <s 0 \<or> max' \<le>s cur"
  then show "Progress cur max' progressMax symbol = ''''"
    by (rule Progress_empty)
next
  assume "1 \<le>s max' \<and> 1 \<le>s progressMax \<and> 0 \<le>s cur \<and> cur <s max'
    \<and> (sint cur + 1) * sint progressMax < 2 ^ 63"
  then show "Progress cur max' progressMax symbol
      = concat (replicate
          (nat ((sint cur + 1) * sint progressMax div sint max'
                - sint cur * sint progressMax div sint max')) symbol)"
    by (simp add: Progress_as_copies Progress_copies_fits)
next
  assume "1 \<le>s max' \<and> 1 \<le>s progressMax \<and> 0 \<le>s cur \<and> cur <s max'
    \<and> (sint cur + 1) * sint progressMax < 2 ^ 63"
  then show "sint cur * sint progressMax div sint max'
      \<le> (sint cur + 1) * sint progressMax div sint max'"
    by (intro zdiv_mono1) (simp_all add: scmp mult_right_mono)
qed

theorem Progress_result_witness:
  "Progress 5 4 2 ''*'' = '''' \<and> Progress (- 1) 4 2 ''*'' = ''''
   \<and> Progress 0 0 2 ''*'' = '''' \<and> Progress 0 4 0 ''*'' = ''''
   \<and> Progress 0 2 6 ''ab'' = ''ababab''"
proof -
  have a: "Progress 5 4 2 ''*'' = ''''"
    using Progress_result [of 4 2 5 "''*''"] by (simp add: scmp)
  have b: "Progress (- 1) 4 2 ''*'' = ''''"
    using Progress_result [of 4 2 "- 1" "''*''"] by (simp add: scmp)
  have c: "Progress 0 0 2 ''*'' = ''''"
    using Progress_result [of 0 2 0 "''*''"] by (simp add: scmp)
  have d: "Progress 0 4 0 ''*'' = ''''"
    using Progress_result [of 4 0 0 "''*''"] by (simp add: scmp)
  have e: "Progress 0 2 6 ''ab'' = ''ababab''"
    using Progress_result [of 2 6 0 "''ab''"] by (simp add: scmp numeral_3_eq_3)
  from a b c d e show ?thesis
    by simp
qed

end
